theory Spec2Isabelle
  imports Main "HOL-Library.AList"
begin

section \<open>Port derivation\<close>

text \<open>
  \<^verbatim>\<open>port_hash(name)\<close> of \<^verbatim>\<open>flexx/ui/app/app.py\<close>. Python integers are
  unbounded, so the accumulator is an \<^typ>\<open>int\<close>; \<^verbatim>\<open>val >> 3\<close> on a Python
  integer is the floor division by eight, which is \<^term>\<open>drop_bit 3\<close> on \<^typ>\<open>int\<close>.
  A Python string is a sequence of code points; \<open>port_hash_ords\<close> is the function on
  the code points \<^verbatim>\<open>ord(c)\<close>, and \<open>port_hash\<close> is its restriction to strings whose
  characters are below 256.
\<close>

definition fac :: int where
  "fac = 0xd2d84a61"

definition port_hash_step :: "int \<Rightarrow> nat \<Rightarrow> int" where
  "port_hash_step val c = val + (drop_bit 3 val + int c * fac)"

definition port_hash_ords :: "nat list \<Rightarrow> int" where
  "port_hash_ords name =
     (let val = foldl port_hash_step 0 name;
          val = val + (drop_bit 3 val + int (length name) * fac)
      in 49152 + val mod 2 ^ 14)"

definition port_hash :: "string \<Rightarrow> int" where
  "port_hash name = port_hash_ords (map of_char name)"

text \<open>The decimal rendering \<^verbatim>\<open>'%i' % i\<close> of a natural number.\<close>

definition digit_char :: "nat \<Rightarrow> char" where
  "digit_char d = ''0123456789'' ! d"

fun str_nat :: "nat \<Rightarrow> string" where
  "str_nat n = (if n < 10 then [digit_char n] else str_nat (n div 10) @ [digit_char (n mod 10)])"

declare str_nat.simps [simp del]

text \<open>The seeds \<^verbatim>\<open>'flexx+%i' % i\<close> that \<^verbatim>\<open>init_server\<close> tries, in order.\<close>

definition seed :: "nat \<Rightarrow> string" where
  "seed i = ''flexx+'' @ str_nat i"

definition seed_ports :: "int list" where
  "seed_ports = map (\<lambda>i. port_hash (seed i)) [0..<100]"

section \<open>Classes, proxies, channels and the application manager\<close>

text \<open>
  Objects are identified by their address in a store. A \<^verbatim>\<open>Proxy\<close> is an
  object that the manager's lists and the callers share, so the model keeps the proxies in
  a heap and every method of \<^verbatim>\<open>Proxy\<close> takes the address \<open>self\<close>. A raise leaves
  behind the mutations made before it, so every operation returns the store together with
  its outcome, \<open>Inl\<close> for the exception raised. Output written with \<^verbatim>\<open>print\<close>
  and \<^verbatim>\<open>logging\<close> is not part of the model.
\<close>

type_synonym addr = nat

datatype error =
    AssertionError
  | KeyError
  | AttributeError
  | OSError
  | ValueError string
  | RuntimeError string

text \<open>
  A class object: its identity, \<^verbatim>\<open>__name__\<close>, the classes after itself in
  \<^verbatim>\<open>mro()\<close>, and the results of \<^verbatim>\<open>get_js()\<close> and \<^verbatim>\<open>get_css()\<close> (which
  the code reads for subclasses of \<^verbatim>\<open>Mirrored\<close> only). Two values are the same
  class exactly when they are equal, which is both \<^verbatim>\<open>is\<close> and membership in a set
  of classes.
\<close>

datatype cls =
  Class (cls_id: nat) (cls_name: string) (mro_tail: "cls list") (get_js: string) (get_css: string)

definition mro :: "cls \<Rightarrow> cls list" where
  "mro c = c # mro_tail c"

definition issubclass :: "cls \<Rightarrow> cls \<Rightarrow> bool" where
  "issubclass c d = (d \<in> set (mro c))"

text \<open>\<^verbatim>\<open>str.strip()\<close>, on strings of code points below 256.\<close>

definition isspace :: "char \<Rightarrow> bool" where
  "isspace c = (of_char c \<in> {9, 10, 11, 12, 13, 28, 29, 30, 31, 32, 133, 160 :: nat})"

definition strip :: "string \<Rightarrow> string" where
  "strip s = rev (dropWhile isspace (rev (dropWhile isspace s)))"

record proxy =
  proxy_app_name :: string
  proxy_runtime :: "nat option"
  proxy_ws :: "addr option"
  proxy_widget :: "nat option"
  known_mirrored_classes :: "cls set"
  pending_commands :: "string list"

text \<open>
  The channel collaborator: its \<^verbatim>\<open>close_code\<close> (\<open>None\<close> while open) and the
  commands it has received through \<^verbatim>\<open>command(...)\<close>, oldest first.
\<close>

record websocket =
  close_code :: "int option"
  commands :: "string list"

text \<open>
  The store: the proxy objects, the channel objects, \<^verbatim>\<open>manager._proxies\<close> (a
  dictionary, kept in insertion order; the two lists of an entry are held by value), the
  module globals \<^verbatim>\<open>is_notebook\<close> and \<^verbatim>\<open>_tornado_app\<close> with its
  \<^verbatim>\<open>serving_at\<close>, and the runtimes that were asked to close.
\<close>

record world =
  proxies :: "addr \<Rightarrow> proxy"
  next_proxy :: addr
  sockets :: "addr \<Rightarrow> websocket"
  next_socket :: addr
  manager_proxies :: "(string \<times> cls option \<times> addr list \<times> addr list) list"
  is_notebook :: bool
  tornado_app :: bool
  serving_at :: "(string \<times> int) option"
  closed_runtimes :: "nat list"

type_synonym 'a result = "(error + 'a) \<times> world"

text \<open>
  What the code imports from outside this file: the classes \<^verbatim>\<open>Mirrored\<close> and
  \<^verbatim>\<open>Widget\<close>, \<^verbatim>\<open>clientCode.get_defined_mirrored_classes()\<close>, whether
  \<^verbatim>\<open>_tornado_app.listen(port, host)\<close> binds (it raises \<^verbatim>\<open>OSError\<close>
  otherwise), what \<^verbatim>\<open>webruntime.launch(url, runtime)\<close> returns, and what
  instantiating an application class with \<^verbatim>\<open>cls(_proxy=proxy)\<close> does.
\<close>

record env =
  Mirrored :: cls
  Widget :: cls
  get_defined_mirrored_classes :: "cls list"
  listen :: "int \<Rightarrow> string \<Rightarrow> bool"
  launch :: "string \<Rightarrow> string \<Rightarrow> error + nat"
  instantiate :: "cls \<Rightarrow> addr \<Rightarrow> world \<Rightarrow> nat result"

definition update_proxy :: "addr \<Rightarrow> (proxy \<Rightarrow> proxy) \<Rightarrow> world \<Rightarrow> world" where
  "update_proxy self f w = w\<lparr>proxies := (proxies w)(self := f (proxies w self))\<rparr>"

subsection \<open>Listener bootstrap\<close>

definition str_int :: "int \<Rightarrow> string" where
  "str_int i = (if i < 0 then ''-'' @ str_nat (nat (- i)) else str_nat (nat i))"

definition init_server :: "env \<Rightarrow> string \<Rightarrow> int option \<Rightarrow> world \<Rightarrow> unit result" where
  "init_server e host port w =
     (if tornado_app w then (Inr (), w)
      else
        let w1 = w\<lparr>tornado_app := True\<rparr> in
        case port of
          Some p \<Rightarrow>
            if listen e p host then (Inr (), w1\<lparr>serving_at := Some (host, p)\<rparr>)
            else (Inl OSError, w1)
        | None \<Rightarrow>
            (case find (\<lambda>p. listen e p host) (map (\<lambda>i. port_hash (seed i)) [0..<100]) of
               Some p \<Rightarrow> (Inr (), w1\<lparr>serving_at := Some (host, p)\<rparr>)
             | None \<Rightarrow> (Inl (RuntimeError ''Could not bind to free address''), w1)))"

subsection \<open>Proxy\<close>

datatype STATUS = PENDING | CONNECTED | CLOSED

text \<open>\<^verbatim>\<open>'%x' % id(self)\<close>: the address in lower-case hexadecimal.\<close>

definition hex_char :: "nat \<Rightarrow> char" where
  "hex_char d = ''0123456789abcdef'' ! d"

fun hex :: "nat \<Rightarrow> string" where
  "hex n = (if n < 16 then [hex_char n] else hex (n div 16) @ [hex_char (n mod 16)])"

declare hex.simps [simp del]

definition proxy_id :: "addr \<Rightarrow> string" where
  "proxy_id self = hex self"

definition status :: "world \<Rightarrow> addr \<Rightarrow> STATUS" where
  "status w self =
     (case proxy_ws (proxies w self) of
        None \<Rightarrow> PENDING
      | Some s \<Rightarrow> (case close_code (sockets w s) of None \<Rightarrow> CONNECTED | Some c \<Rightarrow> CLOSED))"

text \<open>\<^verbatim>\<open>ws.command(command)\<close>: the channel receives one more command.\<close>

definition ws_command :: "addr \<Rightarrow> string \<Rightarrow> world \<Rightarrow> world" where
  "ws_command s command w =
     w\<lparr>sockets := (sockets w)(s := (sockets w s)\<lparr>commands := commands (sockets w s) @ [command]\<rparr>)\<rparr>"

text \<open>
  Modelled from the spec: the class \<^verbatim>\<open>Exporter\<close> of \<^verbatim>\<open>clientcode.py\<close> is
  not part of the sources at hand. The spec describes it as a capturing channel that
  records commands without an external process; constructing one gives a new channel
  object that is open and has received nothing.
\<close>

definition Exporter :: "addr \<Rightarrow> world \<Rightarrow> addr \<times> world" where
  "Exporter proxy w =
     (let s = next_socket w
      in (s, w\<lparr>next_socket := Suc s,
               sockets := (sockets w)(s := \<lparr>close_code = None, commands = []\<rparr>)\<rparr>))"

text \<open>\<^verbatim>\<open>Proxy._launch_runtime\<close>.\<close>

definition launch_runtime :: "env \<Rightarrow> addr \<Rightarrow> string \<Rightarrow> world \<Rightarrow> unit result" where
  "launch_runtime e self runtime w =
     (if runtime = ''<export>'' then
        (case Exporter self w of
           (s, w1) \<Rightarrow> (Inr (), update_proxy self (\<lambda>p. p\<lparr>proxy_ws := Some s\<rparr>) w1))
      else if runtime = ''notebook'' then (Inr (), w)
      else if runtime \<noteq> [] then
        (case init_server e ''localhost'' None w of
           (Inl err, w1) \<Rightarrow> (Inl err, w1)
         | (Inr u, w1) \<Rightarrow>
             (case serving_at w1 of
                None \<Rightarrow> (Inl AttributeError, w1)
              | Some (host, port) \<Rightarrow>
                  let name = proxy_app_name (proxies w1 self);
                      name = (if name \<noteq> ''__default__'' then name @ ''-'' @ proxy_id self
                              else name)
                  in (case launch e (''http://'' @ host @ '':'' @ str_int port @ ''/'' @ name @ ''/'')
                             runtime of
                        Inl err \<Rightarrow> (Inl err, w1)
                      | Inr r \<Rightarrow>
                          (Inr (), update_proxy self (\<lambda>p. p\<lparr>proxy_runtime := Some r\<rparr>) w1))))
      else (Inr (), w))"

text \<open>
  \<^verbatim>\<open>Proxy.__init__\<close>: a new object at the next free address; \<^verbatim>\<open>if runtime:\<close>
  holds for a string that is given and not empty.
\<close>

definition Proxy_init :: "env \<Rightarrow> string \<Rightarrow> string option \<Rightarrow> world \<Rightarrow> addr result" where
  "Proxy_init e app_name runtime w =
     (let self = next_proxy w;
          w1 = w\<lparr>next_proxy := Suc self,
                 proxies := (proxies w)(self :=
                   \<lparr>proxy_app_name = app_name, proxy_runtime = None, proxy_ws = None,
                    proxy_widget = None,
                    known_mirrored_classes = set (get_defined_mirrored_classes e),
                    pending_commands = []\<rparr>)\<rparr>
      in case runtime of
           None \<Rightarrow> (Inr self, w1)
         | Some r \<Rightarrow>
             if r = [] then (Inr self, w1)
             else (case launch_runtime e self r w1 of
                     (Inl err, w2) \<Rightarrow> (Inl err, w2)
                   | (Inr u, w2) \<Rightarrow> (Inr self, w2)))"

text \<open>\<^verbatim>\<open>Proxy._connect_client\<close>.\<close>

definition Proxy_connect_client :: "addr \<Rightarrow> addr \<Rightarrow> world \<Rightarrow> unit result" where
  "Proxy_connect_client self s w =
     (if proxy_ws (proxies w self) \<noteq> None then (Inl AssertionError, w)
      else
        let w1 = update_proxy self (\<lambda>p. p\<lparr>proxy_ws := Some s\<rparr>) w
        in (Inr (), fold (ws_command s) (pending_commands (proxies w1 self)) w1))"

definition set_widget :: "addr \<Rightarrow> nat \<Rightarrow> world \<Rightarrow> unit result" where
  "set_widget self wdg w =
     (if proxy_widget (proxies w self) \<noteq> None then (Inl AssertionError, w)
      else (Inr (), update_proxy self (\<lambda>p. p\<lparr>proxy_widget := Some wdg\<rparr>) w))"

text \<open>
  \<^verbatim>\<open>Proxy.close\<close>; a runtime object and a widget object are true when tested.
\<close>

definition close :: "addr \<Rightarrow> world \<Rightarrow> world" where
  "close self w =
     (let w1 = (case proxy_runtime (proxies w self) of
                  Some r \<Rightarrow> w\<lparr>closed_runtimes := closed_runtimes w @ [r]\<rparr>
                | None \<Rightarrow> w)
      in if proxy_widget (proxies w1 self) \<noteq> None
         then update_proxy self (\<lambda>p. p\<lparr>proxy_widget := None\<rparr>) w1
         else w1)"

text \<open>
  \<^verbatim>\<open>Proxy._send_command\<close>. Calling \<^verbatim>\<open>command\<close> on an absent channel would be
  an \<^verbatim>\<open>AttributeError\<close>; the status \<open>CONNECTED\<close> excludes it.
\<close>

definition send_command :: "addr \<Rightarrow> string \<Rightarrow> world \<Rightarrow> unit result" where
  "send_command self command w =
     (if status w self = CONNECTED then
        (case proxy_ws (proxies w self) of
           Some s \<Rightarrow> (Inr (), ws_command s command w)
         | None \<Rightarrow> (Inl AttributeError, w))
      else if status w self = PENDING then
        (Inr (), update_proxy self
                   (\<lambda>p. p\<lparr>pending_commands := pending_commands p @ [command]\<rparr>) w)
      else (Inl (RuntimeError ''Cannot send commands; app is closed''), w))"

text \<open>
  \<^verbatim>\<open>Proxy.register_mirrored\<close>; \<open>register_bases\<close> is its loop over
  \<^verbatim>\<open>cls.mro()[1:]\<close>, which stops at the first class that is not a subclass of
  \<^verbatim>\<open>Mirrored\<close>.
\<close>

fun register_mirrored :: "env \<Rightarrow> addr \<Rightarrow> cls \<Rightarrow> world \<Rightarrow> unit result"
  and register_bases :: "env \<Rightarrow> addr \<Rightarrow> cls list \<Rightarrow> world \<Rightarrow> unit result" where
  "register_mirrored e self (Class i n bases js css) w =
     (if \<not> issubclass (Class i n bases js css) (Mirrored e)
      then (Inl (ValueError ''Not a Mirrored class''), w)
      else if Class i n bases js css \<in> known_mirrored_classes (proxies w self) then (Inr (), w)
      else
        (case register_bases e self bases w of
           (Inl err, w1) \<Rightarrow> (Inl err, w1)
         | (Inr u, w1) \<Rightarrow>
             let w2 = update_proxy self
                        (\<lambda>p. p\<lparr>known_mirrored_classes :=
                                 insert (Class i n bases js css) (known_mirrored_classes p)\<rparr>) w1
             in (case send_command self (''DEFINE-JS '' @ js) w2 of
                   (Inl err, w3) \<Rightarrow> (Inl err, w3)
                 | (Inr u, w3) \<Rightarrow>
                     if strip css \<noteq> [] then send_command self (''DEFINE-CSS '' @ css) w3
                     else (Inr (), w3))))"
| "register_bases e self [] w = (Inr (), w)"
| "register_bases e self (cls2 # rest) w =
     (if \<not> issubclass cls2 (Mirrored e) then (Inr (), w)
      else if cls2 \<notin> known_mirrored_classes (proxies w self) then
        (case register_mirrored e self cls2 w of
           (Inl err, w1) \<Rightarrow> (Inl err, w1)
         | (Inr u, w1) \<Rightarrow> register_bases e self rest w1)
      else register_bases e self rest w)"

subsection \<open>AppManager\<close>

text \<open>
  \<^verbatim>\<open>self._proxies[name]\<close> raises \<^verbatim>\<open>KeyError\<close> for an unknown name. Storing
  under a key keeps the position of a key that is present and appends a new one, which is
  \<^const>\<open>AList.update\<close>.
\<close>

definition init_manager :: "(string \<times> cls option \<times> addr list \<times> addr list) list" where
  "init_manager = [(''__default__'', (None, [], []))]"

text \<open>
  \<^verbatim>\<open>AppManager.register_app_class\<close>. The lists start out empty and are taken
  from the stored entry only when the name is present and the class is not the stored
  one.
\<close>

definition register_app_class :: "env \<Rightarrow> cls \<Rightarrow> world \<Rightarrow> unit result" where
  "register_app_class e c w =
     (if \<not> issubclass c (Widget e) then (Inl AssertionError, w)
      else
        let name = cls_name c;
            (pending, connected) =
              (case map_of (manager_proxies w) name of
                 Some (oldCls, pending, connected) \<Rightarrow>
                   if Some c \<noteq> oldCls then (pending, connected) else ([], [])
               | None \<Rightarrow> ([], []))
        in (Inr (), w\<lparr>manager_proxies :=
                        AList.update name (Some c, pending, connected) (manager_proxies w)\<rparr>))"

text \<open>\<^verbatim>\<open>AppManager.get_default_proxy\<close>.\<close>

definition get_default_proxy :: "env \<Rightarrow> world \<Rightarrow> addr result" where
  "get_default_proxy e w =
     (case map_of (manager_proxies w) ''__default__'' of
        None \<Rightarrow> (Inl KeyError, w)
      | Some (c, pending, connected) \<Rightarrow>
          let proxies = pending @ connected in
          if proxies \<noteq> [] then (Inr (last proxies), w)
          else
            let runtime = (if is_notebook w then ''notebook'' else ''browser'') in
            case Proxy_init e ''__default__'' (Some runtime) w of
              (Inl err, w1) \<Rightarrow> (Inl err, w1)
            | (Inr proxy, w1) \<Rightarrow>
                (Inr proxy,
                 w1\<lparr>manager_proxies :=
                      AList.update ''__default__'' (c, pending @ [proxy], connected)
                        (manager_proxies w1)\<rparr>))"

text \<open>\<^verbatim>\<open>AppManager.add_pending_proxy_instance\<close>.\<close>

definition add_pending_proxy_instance :: "addr \<Rightarrow> world \<Rightarrow> unit result" where
  "add_pending_proxy_instance proxy w =
     (let name = proxy_app_name (proxies w proxy) in
      case map_of (manager_proxies w) name of
        None \<Rightarrow> (Inl AssertionError, w)
      | Some (c, pending, connected) \<Rightarrow>
          if status w proxy = PENDING then
            (if proxy \<in> set pending then (Inl AssertionError, w)
             else (Inr (), w\<lparr>manager_proxies :=
                               AList.update name (c, pending @ [proxy], connected)
                                 (manager_proxies w)\<rparr>))
          else (Inl (RuntimeError
                  ''Cannot add proxy instances that are/were already connected''), w))"

text \<open>
  The first part of \<^verbatim>\<open>AppManager.connect_client\<close>: finding the proxy for an
  incoming connection. \<^verbatim>\<open>not app_id\<close> holds for \<^verbatim>\<open>None\<close> and for the empty
  string. The message of the \<^verbatim>\<open>RuntimeError\<close> is the format string of the source.
\<close>

definition resolve_proxy ::
    "env \<Rightarrow> string \<Rightarrow> string option \<Rightarrow> cls option \<Rightarrow> addr list \<Rightarrow> addr list \<Rightarrow> world \<Rightarrow> addr result"
  where
  "resolve_proxy e name app_id c pending connected w =
     (if name = ''__default__'' then
        (if pending \<noteq> [] then
           (Inr (last pending),
            w\<lparr>manager_proxies :=
                 AList.update name (c, butlast pending, connected) (manager_proxies w)\<rparr>)
         else Proxy_init e name None w)
      else if app_id = None \<or> app_id = Some [] then
        (case c of
           None \<Rightarrow> (Inl AttributeError, w)
         | Some k \<Rightarrow>
             (case Proxy_init e (cls_name k) None w of
                (Inl err, w1) \<Rightarrow> (Inl err, w1)
              | (Inr proxy, w1) \<Rightarrow>
                  (case instantiate e k proxy w1 of
                     (Inl err, w2) \<Rightarrow> (Inl err, w2)
                   | (Inr app, w2) \<Rightarrow>
                       (case set_widget proxy app w2 of
                          (Inl err, w3) \<Rightarrow> (Inl err, w3)
                        | (Inr u, w3) \<Rightarrow> (Inr proxy, w3)))))
      else
        (case find (\<lambda>proxy. Some (proxy_id proxy) = app_id) pending of
           Some proxy \<Rightarrow>
             (Inr proxy,
              w\<lparr>manager_proxies :=
                   AList.update name (c, remove1 proxy pending, connected) (manager_proxies w)\<rparr>)
         | None \<Rightarrow>
             (Inl (RuntimeError ''Asked for app id %r, but could not find it''), w)))"

text \<open>
  \<^verbatim>\<open>AppManager.connect_client\<close>: the proxy found is asserted to be pending, gets
  the channel, and is appended to the connected list of the entry. The lists are held by
  value, so the proxy is appended to the list that the entry has at that moment; this is
  the list object that the source has bound on entry, unless instantiating the application
  class has stored another entry under the name.
\<close>

definition connect_client :: "env \<Rightarrow> addr \<Rightarrow> string \<Rightarrow> string option \<Rightarrow> world \<Rightarrow> addr result" where
  "connect_client e s name app_id w =
     (case map_of (manager_proxies w) name of
        None \<Rightarrow> (Inl KeyError, w)
      | Some (c, pending, connected) \<Rightarrow>
          (case resolve_proxy e name app_id c pending connected w of
             (Inl err, w1) \<Rightarrow> (Inl err, w1)
           | (Inr proxy, w1) \<Rightarrow>
               if status w1 proxy \<noteq> PENDING then (Inl AssertionError, w1)
               else
                 (case Proxy_connect_client proxy s w1 of
                    (Inl err, w2) \<Rightarrow> (Inl err, w2)
                  | (Inr u, w2) \<Rightarrow>
                      (case map_of (manager_proxies w2) name of
                         None \<Rightarrow> (Inr proxy, w2)
                       | Some (c2, pending2, connected2) \<Rightarrow>
                           (Inr proxy,
                            w2\<lparr>manager_proxies :=
                                 AList.update name (c2, pending2, connected2 @ [proxy])
                                   (manager_proxies w2)\<rparr>)))))"

text \<open>\<^verbatim>\<open>AppManager.disconnect_client\<close>.\<close>

definition disconnect_client :: "addr \<Rightarrow> world \<Rightarrow> unit result" where
  "disconnect_client proxy w =
     (let name = proxy_app_name (proxies w proxy) in
      case map_of (manager_proxies w) name of
        None \<Rightarrow> (Inl KeyError, w)
      | Some (c, pending, connected) \<Rightarrow>
          (Inr (), close proxy
                     (w\<lparr>manager_proxies :=
                          AList.update name (c, pending, remove1 proxy connected)
                            (manager_proxies w)\<rparr>)))"

subsection \<open>Sequences of calls and example stores\<close>

text \<open>
  A caller that sends commands one after the other; an exception ends the sequence, as it
  would end the calling code.
\<close>

fun send_commands :: "addr \<Rightarrow> string list \<Rightarrow> world \<Rightarrow> unit result" where
  "send_commands self [] w = (Inr (), w)"
| "send_commands self (command # rest) w =
     (case send_command self command w of
        (Inl err, w1) \<Rightarrow> (Inl err, w1)
      | (Inr u, w1) \<Rightarrow> send_commands self rest w1)"

text \<open>
  A small class hierarchy: \<^verbatim>\<open>object\<close>, \<^verbatim>\<open>Mirrored\<close>, \<^verbatim>\<open>Widget\<close>, an
  application class \<^verbatim>\<open>Calc\<close>, and a class of the same name that is not a widget.
  In \<open>example_env\<close> every port binds, every launch returns the runtime 7, and
  instantiating an application class returns the widget 1 and changes nothing.
\<close>

definition object_cls :: cls where
  "object_cls = Class 0 ''object'' [] [] []"

definition Mirrored_cls :: cls where
  "Mirrored_cls = Class 1 ''Mirrored'' [object_cls] ''flexx.classes.Mirrored = {};'' []"

definition Widget_cls :: cls where
  "Widget_cls =
     Class 2 ''Widget'' [Mirrored_cls, object_cls] ''flexx.classes.Widget = {};'' ''.w {}''"

definition Calc :: cls where
  "Calc =
     Class 3 ''Calc'' [Widget_cls, Mirrored_cls, object_cls] ''flexx.classes.Calc = {};'' ''  ''"

definition Plain_Calc :: cls where
  "Plain_Calc = Class 4 ''Calc'' [object_cls] [] []"

definition example_env :: env where
  "example_env =
     \<lparr>Mirrored = Mirrored_cls, Widget = Widget_cls,
      get_defined_mirrored_classes = [Mirrored_cls],
      listen = (\<lambda>port host. True),
      launch = (\<lambda>url runtime. Inr 7),
      instantiate = (\<lambda>c proxy w. (Inr 1, w))\<rparr>"

text \<open>
  The store of a process that has just imported the module: no proxy has been constructed
  and the manager knows the default name only. The proxies of the examples know the classes
  that \<open>example_env\<close> gives as defined. In \<open>connected_world\<close> the proxy at address 0
  holds the open channel 0; in \<open>closed_world\<close> that channel has closed.
\<close>

definition fresh_proxy :: proxy where
  "fresh_proxy =
     \<lparr>proxy_app_name = ''__default__'', proxy_runtime = None, proxy_ws = None,
      proxy_widget = None,
      known_mirrored_classes = set (get_defined_mirrored_classes example_env),
      pending_commands = []\<rparr>"

definition initial_world :: world where
  "initial_world =
     \<lparr>proxies = (\<lambda>a. fresh_proxy), next_proxy = 0,
      sockets = (\<lambda>a. \<lparr>close_code = None, commands = []\<rparr>), next_socket = 0,
      manager_proxies = init_manager, is_notebook = False, tornado_app = False,
      serving_at = None, closed_runtimes = []\<rparr>"

definition connected_world :: world where
  "connected_world = update_proxy 0 (\<lambda>p. p\<lparr>proxy_ws := Some 0\<rparr>) initial_world"

definition closed_world :: world where
  "closed_world =
     connected_world\<lparr>sockets := (sockets connected_world)
        (0 := \<lparr>close_code = Some 1000, commands = []\<rparr>)\<rparr>"

text \<open>
  Stores of a running process. In \<open>mixed_world\<close> the default application has the
  pending proxy 0 and the connected proxy 1 (on the open channel 0). In \<open>calc_world\<close>
  the application \<^verbatim>\<open>Calc\<close> is registered too, with the pending proxy 2 and the
  connected proxy 3 (on the open channel 1). In \<open>pending_world\<close> the
  default application has the pending proxy 0 only. In \<open>stale_world\<close> the proxy 0 is still in
  the pending list of the default application, and the proxy 2 in that of \<^verbatim>\<open>Calc\<close>,
  although both have got a channel directly.
\<close>

definition mixed_world :: world where
  "mixed_world =
     initial_world
       \<lparr>proxies := (proxies initial_world)(1 := fresh_proxy\<lparr>proxy_ws := Some 0\<rparr>),
        next_proxy := 2, next_socket := 1,
        manager_proxies := [(''__default__'', (None, [0], [1]))]\<rparr>"

definition calc_world :: world where
  "calc_world =
     mixed_world
       \<lparr>proxies := (proxies mixed_world)
          (2 := fresh_proxy\<lparr>proxy_app_name := ''Calc'', proxy_widget := Some 1\<rparr>,
           3 := fresh_proxy\<lparr>proxy_app_name := ''Calc'', proxy_widget := Some 2,
                  proxy_ws := Some 1\<rparr>),
        next_proxy := 4, next_socket := 2,
        manager_proxies :=
          [(''__default__'', (None, [0], [1])), (''Calc'', (Some Calc, [2], [3]))]\<rparr>"

definition stale_world :: world where
  "stale_world =
     calc_world
       \<lparr>proxies := (proxies calc_world)
          (0 := fresh_proxy\<lparr>proxy_ws := Some 2\<rparr>,
           2 := fresh_proxy\<lparr>proxy_app_name := ''Calc'', proxy_widget := Some 1,
                  proxy_ws := Some 3\<rparr>),
        next_socket := 4\<rparr>"

definition pending_world :: world where
  "pending_world =
     initial_world\<lparr>next_proxy := 1, manager_proxies := [(''__default__'', (None, [0], []))]\<rparr>"

subsection \<open>Observing what a proxy has sent\<close>

text \<open>
  The commands \<^verbatim>\<open>register_mirrored\<close> sends for one class: \<^verbatim>\<open>DEFINE-JS\<close>, and
  \<^verbatim>\<open>DEFINE-CSS\<close> when the style is not blank.
\<close>

definition define_commands :: "cls \<Rightarrow> string list" where
  "define_commands c =
     (''DEFINE-JS '' @ get_js c)
       # (if strip (get_css c) \<noteq> [] then [''DEFINE-CSS '' @ get_css c] else [])"

text \<open>
  Where the commands of a proxy are: in its buffer while it has no channel, at its channel
  afterwards. A call has emitted the commands by which this list has grown.
\<close>

definition outbox :: "world \<Rightarrow> addr \<Rightarrow> string list" where
  "outbox w self =
     (case proxy_ws (proxies w self) of
        None \<Rightarrow> pending_commands (proxies w self)
      | Some s \<Rightarrow> commands (sockets w s))"

text \<open>
  The ancestors of a class that are subclasses of \<^verbatim>\<open>Mirrored\<close>, and those of them
  that the loop of \<^verbatim>\<open>register_mirrored\<close> reaches before it breaks. In a descriptor
  whose base chain consists of \<^verbatim>\<open>Mirrored\<close> classes up to the root marker, no other
  class comes before a subclass of \<^verbatim>\<open>Mirrored\<close>, and the same holds for its
  ancestors (in Python the \<^verbatim>\<open>mro()\<close> of an ancestor is a subsequence of the
  \<^verbatim>\<open>mro()\<close> of the class).
\<close>

definition mirrored_ancestors :: "cls \<Rightarrow> cls \<Rightarrow> cls list" where
  "mirrored_ancestors M c = filter (\<lambda>d. issubclass d M) (mro_tail c)"

definition mirrored_bases :: "cls \<Rightarrow> cls \<Rightarrow> cls list" where
  "mirrored_bases M c = takeWhile (\<lambda>d. issubclass d M) (mro_tail c)"

fun valid_descriptor :: "cls \<Rightarrow> cls \<Rightarrow> bool" where
  "valid_descriptor M (Class i n bases js css) =
     (issubclass (Class i n bases js css) M
      \<and> filter (\<lambda>d. issubclass d M) bases = takeWhile (\<lambda>d. issubclass d M) bases
      \<and> (\<forall>d\<in>set bases. issubclass d M \<longrightarrow> valid_descriptor M d))"

text \<open>
  A list of classes is in least-derived-to-most-derived order, over the classes \<open>K\<close>
  known beforehand, when the ancestors of each class are in \<open>K\<close> or earlier in the
  list.
\<close>

fun bases_first :: "(cls \<Rightarrow> cls list) \<Rightarrow> cls set \<Rightarrow> cls list \<Rightarrow> bool" where
  "bases_first anc K [] = True"
| "bases_first anc K (c # cs) = (set (anc c) \<subseteq> K \<and> bases_first anc (insert c K) cs)"

text \<open>
  What a run of \<^verbatim>\<open>register_mirrored\<close> that registers the classes \<open>order\<close>, one
  after the other, does to the store: the proxy emits their commands in that order, knows
  them afterwards, and keeps its status; the classes are new, pairwise different, and come
  after the bases that the loop reaches.
\<close>

definition registered ::
    "cls \<Rightarrow> addr \<Rightarrow> (cls \<Rightarrow> bool) \<Rightarrow> world \<Rightarrow> world \<Rightarrow> cls list \<Rightarrow> bool" where
  "registered M self V w w1 order \<longleftrightarrow>
     outbox w1 self = outbox w self @ concat (map define_commands order)
     \<and> known_mirrored_classes (proxies w1 self)
         = known_mirrored_classes (proxies w self) \<union> set order
     \<and> status w1 self = status w self
     \<and> distinct order
     \<and> set order \<inter> known_mirrored_classes (proxies w self) = {}
     \<and> bases_first (mirrored_bases M) (known_mirrored_classes (proxies w self)) order
     \<and> list_all V order"

section \<open>Results on the proxy\<close>

lemma status_cases:
  "status w self = PENDING \<longleftrightarrow> proxy_ws (proxies w self) = None"
  "status w self = CONNECTED \<longleftrightarrow>
     (\<exists>s. proxy_ws (proxies w self) = Some s \<and> close_code (sockets w s) = None)"
  "status w self = CLOSED \<longleftrightarrow>
     (\<exists>s c. proxy_ws (proxies w self) = Some s \<and> close_code (sockets w s) = Some c)"
  by (auto simp: status_def split: option.splits)

lemma fold_ws_command:
  "commands (sockets (fold (ws_command s) cs w) s) = commands (sockets w s) @ cs
   \<and> close_code (sockets (fold (ws_command s) cs w) s) = close_code (sockets w s)
   \<and> (\<forall>t. t \<noteq> s \<longrightarrow> sockets (fold (ws_command s) cs w) t = sockets w t)
   \<and> proxies (fold (ws_command s) cs w) = proxies w
   \<and> manager_proxies (fold (ws_command s) cs w) = manager_proxies w"
  by (induction cs arbitrary: w) (simp_all add: ws_command_def)

lemma send_command_pending:
  assumes "status w self = PENDING"
  shows "send_command self c w =
     (Inr (), update_proxy self (\<lambda>p. p\<lparr>pending_commands := pending_commands p @ [c]\<rparr>) w)"
  using assms by (simp add: send_command_def)

lemma send_command_connected:
  assumes "proxy_ws (proxies w self) = Some s" "close_code (sockets w s) = None"
  shows "send_command self c w = (Inr (), ws_command s c w)"
  using assms by (simp add: send_command_def status_def)

lemma send_command_closed:
  assumes "status w self = CLOSED"
  shows "send_command self c w = (Inl (RuntimeError ''Cannot send commands; app is closed''), w)"
  using assms by (simp add: send_command_def)

lemma send_commands_pending:
  assumes "status w self = PENDING"
  shows "\<exists>w1. send_commands self cmds w = (Inr (), w1)
     \<and> pending_commands (proxies w1 self) = pending_commands (proxies w self) @ cmds
     \<and> proxy_ws (proxies w1 self) = None
     \<and> sockets w1 = sockets w"
  using assms
proof (induction cmds arbitrary: w)
  case Nil
  then show ?case by (simp add: status_cases)
next
  case (Cons c cmds)
  let ?w = "update_proxy self (\<lambda>p. p\<lparr>pending_commands := pending_commands p @ [c]\<rparr>) w"
  have "status ?w self = PENDING"
    using Cons.prems by (simp add: status_cases update_proxy_def)
  from Cons.IH [OF this] obtain w1 where
    "send_commands self cmds ?w = (Inr (), w1)"
    "pending_commands (proxies w1 self) = pending_commands (proxies ?w self) @ cmds"
    "proxy_ws (proxies w1 self) = None" "sockets w1 = sockets ?w"
    by blast
  then show ?case
    using Cons.prems by (simp add: send_command_pending update_proxy_def)
qed

lemma send_commands_connected:
  assumes "proxy_ws (proxies w self) = Some s" "close_code (sockets w s) = None"
  shows "\<exists>w1. send_commands self cmds w = (Inr (), w1)
     \<and> commands (sockets w1 s) = commands (sockets w s) @ cmds
     \<and> proxies w1 = proxies w"
  using assms
proof (induction cmds arbitrary: w)
  case Nil
  then show ?case by simp
next
  case (Cons c cmds)
  let ?w = "ws_command s c w"
  have "proxy_ws (proxies ?w self) = Some s" "close_code (sockets ?w s) = None"
    using Cons.prems by (simp_all add: ws_command_def)
  from Cons.IH [OF this] obtain w1 where
    "send_commands self cmds ?w = (Inr (), w1)"
    "commands (sockets w1 s) = commands (sockets ?w s) @ cmds" "proxies w1 = proxies ?w"
    by blast
  then show ?case
    using Cons.prems by (simp add: send_command_connected ws_command_def)
qed

lemma send_commands_closed:
  assumes "status w self = CLOSED"
  shows "\<exists>r. send_commands self cmds w = (r, w)"
  using assms by (cases cmds) (simp_all add: send_command_closed)

text \<open>
  Claim C6: \<^verbatim>\<open>_send_command\<close> writes the command to the channel at once when the
  status is \<open>CONNECTED\<close> (the channel receives it as its newest command, and neither
  another channel nor any proxy, so no buffer, changes); it appends the command to the
  buffer when the status is \<open>PENDING\<close> (and no channel receives anything); it raises
  the \<^verbatim>\<open>RuntimeError\<close> for a closed application when the status is \<open>CLOSED\<close>,
  and then the store is as it was: the command was neither delivered nor buffered.
\<close>

theorem send_command_by_status:
  "(status w self = CONNECTED \<longrightarrow>
      (\<exists>s w1. proxy_ws (proxies w self) = Some s
         \<and> send_command self command w = (Inr (), w1)
         \<and> commands (sockets w1 s) = commands (sockets w s) @ [command]
         \<and> (\<forall>t. t \<noteq> s \<longrightarrow> sockets w1 t = sockets w t)
         \<and> proxies w1 = proxies w))
   \<and> (status w self = PENDING \<longrightarrow>
      (\<exists>w1. send_command self command w = (Inr (), w1)
         \<and> pending_commands (proxies w1 self) = pending_commands (proxies w self) @ [command]
         \<and> sockets w1 = sockets w))
   \<and> (status w self = CLOSED \<longrightarrow>
      send_command self command w =
        (Inl (RuntimeError ''Cannot send commands; app is closed''), w))"
proof (intro conjI impI)
  assume "status w self = CONNECTED"
  then obtain s where s: "proxy_ws (proxies w self) = Some s" "close_code (sockets w s) = None"
    by (auto simp: status_cases)
  then have "send_command self command w = (Inr (), ws_command s command w)"
    by (rule send_command_connected)
  with s show "\<exists>s w1. proxy_ws (proxies w self) = Some s
         \<and> send_command self command w = (Inr (), w1)
         \<and> commands (sockets w1 s) = commands (sockets w s) @ [command]
         \<and> (\<forall>t. t \<noteq> s \<longrightarrow> sockets w1 t = sockets w t)
         \<and> proxies w1 = proxies w"
    by (simp add: ws_command_def)
next
  assume "status w self = PENDING"
  then show "\<exists>w1. send_command self command w = (Inr (), w1)
         \<and> pending_commands (proxies w1 self) = pending_commands (proxies w self) @ [command]
         \<and> sockets w1 = sockets w"
    by (simp add: send_command_pending update_proxy_def)
next
  assume "status w self = CLOSED"
  then show "send_command self command w =
        (Inl (RuntimeError ''Cannot send commands; app is closed''), w)"
    by (rule send_command_closed)
qed

lemma example_status:
  "status initial_world 0 = PENDING"
  "status connected_world 0 = CONNECTED"
  "status closed_world 0 = CLOSED"
  by (simp_all add: status_def initial_world_def connected_world_def closed_world_def
      update_proxy_def fresh_proxy_def)

theorem send_command_by_status_witness:
  "status connected_world 0 = CONNECTED
   \<and> (\<exists>w1. send_command 0 ''EXEC x=1'' connected_world = (Inr (), w1)
         \<and> commands (sockets w1 0) = [''EXEC x=1''])
   \<and> status initial_world 0 = PENDING
   \<and> (\<exists>w1. send_command 0 ''EXEC x=1'' initial_world = (Inr (), w1)
         \<and> pending_commands (proxies w1 0) = [''EXEC x=1''])
   \<and> status closed_world 0 = CLOSED
   \<and> send_command 0 ''EXEC x=1'' closed_world =
        (Inl (RuntimeError ''Cannot send commands; app is closed''), closed_world)"
proof -
  have c: "proxy_ws (proxies connected_world 0) = Some 0"
    "commands (sockets connected_world 0) = []"
    by (simp_all add: connected_world_def initial_world_def update_proxy_def)
  have p: "pending_commands (proxies initial_world 0) = []"
    by (simp add: initial_world_def fresh_proxy_def)
  show ?thesis
    using send_command_by_status [of connected_world 0 "''EXEC x=1''"]
      send_command_by_status [of initial_world 0 "''EXEC x=1''"]
      send_command_by_status [of closed_world 0 "''EXEC x=1''"]
    by (auto simp: example_status c p)
qed


text \<open>
  Claim C10: \<^verbatim>\<open>close()\<close> leaves the channel field and the command buffer of every
  proxy as they were, and likewise the known classes, the channels and the manager's
  lists; it asks the runtime, if there is one, to close and clears the widget. The status is
  computed from the channel field and the close code of the channel, so it is the same
  after \<^verbatim>\<open>close()\<close> as before: a proxy that was \<open>CONNECTED\<close> is still
  \<open>CONNECTED\<close>.
\<close>

theorem close_frame:
  "proxy_ws (proxies (close self w) p) = proxy_ws (proxies w p)
   \<and> pending_commands (proxies (close self w) p) = pending_commands (proxies w p)
   \<and> known_mirrored_classes (proxies (close self w) p) = known_mirrored_classes (proxies w p)
   \<and> sockets (close self w) = sockets w
   \<and> manager_proxies (close self w) = manager_proxies w
   \<and> status (close self w) p = status w p
   \<and> proxy_widget (proxies (close self w) self) = None
   \<and> closed_runtimes (close self w) =
       closed_runtimes w @ (case proxy_runtime (proxies w self) of Some r \<Rightarrow> [r] | None \<Rightarrow> [])"
  by (simp add: close_def status_def update_proxy_def Let_def split: option.splits)

lemma Proxy_connect_client_pending:
  assumes "proxy_ws (proxies w self) = None"
  shows "\<exists>w1. Proxy_connect_client self s w = (Inr (), w1)
     \<and> proxy_ws (proxies w1 self) = Some s
     \<and> commands (sockets w1 s) = commands (sockets w s) @ pending_commands (proxies w self)
     \<and> close_code (sockets w1 s) = close_code (sockets w s)
     \<and> (\<forall>t. t \<noteq> s \<longrightarrow> sockets w1 t = sockets w t)
     \<and> pending_commands (proxies w1 self) = pending_commands (proxies w self)
     \<and> manager_proxies w1 = manager_proxies w"
  using assms
  by (simp add: Proxy_connect_client_def Let_def fold_ws_command update_proxy_def)

lemma Proxy_connect_client_attached:
  assumes "proxy_ws (proxies w self) \<noteq> None"
  shows "Proxy_connect_client self s w = (Inl AssertionError, w)"
  using assms by (simp add: Proxy_connect_client_def)

text \<open>
  Claim C1: starting from a pending proxy, every command of a sequence \<open>cmds\<close> sent
  with \<^verbatim>\<open>_send_command\<close> is appended to the buffer and no channel receives
  anything; when a channel is attached with \<^verbatim>\<open>_connect_client\<close>, it receives the
  buffer, each command once and in the order of issue, after what it had received before;
  the commands \<open>later\<close> sent after the attachment come after the buffered ones (they are
  delivered if the channel is open, and none of them if it has closed).
\<close>

theorem pending_commands_fifo:
  assumes "status w self = PENDING"
  shows "\<exists>w1 w2 r w3.
      send_commands self cmds w = (Inr (), w1)
    \<and> pending_commands (proxies w1 self) = pending_commands (proxies w self) @ cmds
    \<and> sockets w1 = sockets w
    \<and> Proxy_connect_client self s w1 = (Inr (), w2)
    \<and> commands (sockets w2 s) =
        commands (sockets w s) @ pending_commands (proxies w self) @ cmds
    \<and> send_commands self later w2 = (r, w3)
    \<and> commands (sockets w3 s) =
        commands (sockets w s) @ pending_commands (proxies w self) @ cmds
          @ (if close_code (sockets w s) = None then later else [])"
proof -
  from send_commands_pending [OF assms, of cmds] obtain w1 where w1:
    "send_commands self cmds w = (Inr (), w1)"
    "pending_commands (proxies w1 self) = pending_commands (proxies w self) @ cmds"
    "proxy_ws (proxies w1 self) = None" "sockets w1 = sockets w"
    by blast
  from Proxy_connect_client_pending [OF w1(3), of s] obtain w2 where w2:
    "Proxy_connect_client self s w1 = (Inr (), w2)"
    "proxy_ws (proxies w2 self) = Some s"
    "commands (sockets w2 s) = commands (sockets w1 s) @ pending_commands (proxies w1 self)"
    "close_code (sockets w2 s) = close_code (sockets w1 s)"
    by blast
  have log2: "commands (sockets w2 s) =
      commands (sockets w s) @ pending_commands (proxies w self) @ cmds"
    using w1 w2 by simp
  have "\<exists>r w3. send_commands self later w2 = (r, w3)
      \<and> commands (sockets w3 s) = commands (sockets w2 s)
          @ (if close_code (sockets w s) = None then later else [])"
  proof (cases "close_code (sockets w s)")
    case None
    then have "close_code (sockets w2 s) = None"
      using w1 w2 by simp
    from send_commands_connected [OF w2(2) this, of later] None show ?thesis
      by auto
  next
    case (Some c)
    then have "status w2 self = CLOSED"
      using w1 w2 by (simp add: status_cases)
    from send_commands_closed [OF this, of later] Some show ?thesis
      by auto
  qed
  then obtain r w3 where "send_commands self later w2 = (r, w3)"
    "commands (sockets w3 s) = commands (sockets w2 s)
          @ (if close_code (sockets w s) = None then later else [])"
    by blast
  with w1 w2 log2 show ?thesis
    by (intro exI [of _ w1] exI [of _ w2] exI [of _ r] exI [of _ w3]) simp
qed

theorem pending_commands_fifo_witness:
  "status initial_world 0 = PENDING
   \<and> (\<exists>w1 w2 r w3.
      send_commands 0 [''EXEC x=1'', ''EXEC y=2''] initial_world = (Inr (), w1)
    \<and> pending_commands (proxies w1 0) = [''EXEC x=1'', ''EXEC y=2'']
    \<and> Proxy_connect_client 0 0 w1 = (Inr (), w2)
    \<and> commands (sockets w2 0) = [''EXEC x=1'', ''EXEC y=2'']
    \<and> send_commands 0 [''EXEC z=3''] w2 = (r, w3)
    \<and> commands (sockets w3 0) = [''EXEC x=1'', ''EXEC y=2'', ''EXEC z=3''])"
proof -
  have i: "pending_commands (proxies initial_world 0) = []"
    "commands (sockets initial_world 0) = []" "close_code (sockets initial_world 0) = None"
    by (simp_all add: initial_world_def fresh_proxy_def)
  show ?thesis
    using pending_commands_fifo [OF example_status(1),
        of "[''EXEC x=1'', ''EXEC y=2'']" 0 "[''EXEC z=3'']"]
    unfolding i by (simp add: example_status(1)) blast
qed

section \<open>Results on the application manager\<close>

lemma map_of_update_same: "map_of (AList.update k v al) k = Some v"
  by (simp add: update_conv')

text \<open>
  Claim C3: for a name other than the default one that is registered, and an instance id
  that matches no proxy of the pending list of that name, \<^verbatim>\<open>connect_client\<close>
  raises the \<^verbatim>\<open>RuntimeError\<close> of the search, and the store after the call is the
  store before it: no list of any name has changed. An instance id is given when
  \<^verbatim>\<open>app_id\<close> is true in Python, that is a string that is not empty; \<^verbatim>\<open>None\<close>
  and the empty string are the absent id, for which the code opens a fresh session.
\<close>

theorem connect_client_dangling:
  assumes "name \<noteq> ''__default__''"
    and "map_of (manager_proxies w) name = Some (c, pending, connected)"
    and "app_id \<noteq> []"
    and "\<forall>proxy\<in>set pending. proxy_id proxy \<noteq> app_id"
  shows "connect_client e s name (Some app_id) w =
    (Inl (RuntimeError ''Asked for app id %r, but could not find it''), w)"
proof -
  have "find (\<lambda>proxy. Some (proxy_id proxy) = Some app_id) pending = None"
    using assms(4) by (simp add: find_None_iff)
  then show ?thesis
    using assms(1-3) by (simp add: connect_client_def resolve_proxy_def)
qed

text \<open>
  Claim C8: when the channel of a proxy is set (the status is \<open>CONNECTED\<close> or
  \<open>CLOSED\<close>), \<^verbatim>\<open>_connect_client\<close> fails on its assertion and changes nothing,
  so the channel is not replaced; after an attachment that succeeded, every further one
  fails. \<^verbatim>\<open>AppManager.connect_client\<close> fails on its assertion as well when the proxy
  it finds has a channel, be it the newest pending proxy of the default name or the pending
  proxy with the given id, and then no proxy and no channel has changed.
\<close>

theorem attach_twice_fails:
  "(proxy_ws (proxies w self) \<noteq> None \<longrightarrow>
      Proxy_connect_client self s w = (Inl AssertionError, w))
   \<and> (Proxy_connect_client self s w = (Inr (), w1) \<longrightarrow>
      proxy_ws (proxies w1 self) = Some s
      \<and> Proxy_connect_client self s2 w1 = (Inl AssertionError, w1))
   \<and> (map_of (manager_proxies w) ''__default__'' = Some (c, pending, connected)
        \<and> pending \<noteq> [] \<and> proxy_ws (proxies w (last pending)) \<noteq> None \<longrightarrow>
      (\<exists>w2. connect_client e s ''__default__'' app_id w = (Inl AssertionError, w2)
         \<and> proxies w2 = proxies w \<and> sockets w2 = sockets w))
   \<and> (name \<noteq> ''__default__'' \<and> i \<noteq> []
        \<and> map_of (manager_proxies w) name = Some (c, pending, connected)
        \<and> find (\<lambda>proxy. Some (proxy_id proxy) = Some i) pending = Some self
        \<and> proxy_ws (proxies w self) \<noteq> None \<longrightarrow>
      (\<exists>w2. connect_client e s name (Some i) w = (Inl AssertionError, w2)
         \<and> proxies w2 = proxies w \<and> sockets w2 = sockets w))"
proof (intro conjI impI)
  assume "proxy_ws (proxies w self) \<noteq> None"
  then show "Proxy_connect_client self s w = (Inl AssertionError, w)"
    by (rule Proxy_connect_client_attached)
next
  assume a: "Proxy_connect_client self s w = (Inr (), w1)"
  then have "proxy_ws (proxies w self) = None"
    by (auto simp: Proxy_connect_client_def split: if_splits)
  from Proxy_connect_client_pending [OF this, of s] a
  show "proxy_ws (proxies w1 self) = Some s" by auto
  then show "Proxy_connect_client self s2 w1 = (Inl AssertionError, w1)"
    by (simp add: Proxy_connect_client_attached)
next
  assume "map_of (manager_proxies w) ''__default__'' = Some (c, pending, connected)
        \<and> pending \<noteq> [] \<and> proxy_ws (proxies w (last pending)) \<noteq> None"
  then show "\<exists>w2. connect_client e s ''__default__'' app_id w = (Inl AssertionError, w2)
         \<and> proxies w2 = proxies w \<and> sockets w2 = sockets w"
    by (auto simp: connect_client_def resolve_proxy_def status_cases)
next
  assume "name \<noteq> ''__default__'' \<and> i \<noteq> []
        \<and> map_of (manager_proxies w) name = Some (c, pending, connected)
        \<and> find (\<lambda>proxy. Some (proxy_id proxy) = Some i) pending = Some self
        \<and> proxy_ws (proxies w self) \<noteq> None"
  then show "\<exists>w2. connect_client e s name (Some i) w = (Inl AssertionError, w2)
         \<and> proxies w2 = proxies w \<and> sockets w2 = sockets w"
    by (auto simp: connect_client_def resolve_proxy_def status_cases)
qed

lemma hex_small: "n < 16 \<Longrightarrow> hex n = [hex_char n]"
  by (simp add: hex.simps)

lemmas example_defs =
  initial_world_def fresh_proxy_def mixed_world_def calc_world_def stale_world_def
  connected_world_def closed_world_def init_manager_def update_proxy_def

theorem connect_client_dangling_witness:
  "''Calc'' \<noteq> ''__default__''
   \<and> map_of (manager_proxies calc_world) ''Calc'' = Some (Some Calc, [2], [3])
   \<and> ''ff'' \<noteq> []
   \<and> proxy_id 2 \<noteq> ''ff''
   \<and> connect_client example_env 5 ''Calc'' (Some ''ff'') calc_world =
       (Inl (RuntimeError ''Asked for app id %r, but could not find it''), calc_world)"
proof -
  have m: "map_of (manager_proxies calc_world) ''Calc'' = Some (Some Calc, [2], [3])"
    by (simp add: example_defs)
  have n: "\<forall>proxy\<in>set [2]. proxy_id proxy \<noteq> ''ff''"
    by (simp add: proxy_id_def hex_small hex_char_def)
  show ?thesis
    using connect_client_dangling [of "''Calc''" calc_world "Some Calc" "[2]" "[3]" "''ff''"
        example_env 5] m n
    by simp
qed

theorem attach_twice_fails_witness:
  "proxy_ws (proxies connected_world 0) \<noteq> None
   \<and> Proxy_connect_client 0 1 connected_world = (Inl AssertionError, connected_world)
   \<and> Proxy_connect_client 0 0 initial_world = (Inr (), connected_world)
   \<and> proxy_ws (proxies connected_world 0) = Some 0
   \<and> map_of (manager_proxies stale_world) ''__default__'' = Some (None, [0], [1])
   \<and> proxy_ws (proxies stale_world (last [0])) \<noteq> None
   \<and> (\<exists>w2. connect_client example_env 5 ''__default__'' None stale_world
                = (Inl AssertionError, w2)
         \<and> proxies w2 = proxies stale_world \<and> sockets w2 = sockets stale_world)
   \<and> map_of (manager_proxies stale_world) ''Calc'' = Some (Some Calc, [2], [3])
   \<and> find (\<lambda>proxy. Some (proxy_id proxy) = Some ''2'') [2] = Some 2
   \<and> proxy_ws (proxies stale_world 2) \<noteq> None
   \<and> (\<exists>w2. connect_client example_env 5 ''Calc'' (Some ''2'') stale_world
                = (Inl AssertionError, w2)
         \<and> proxies w2 = proxies stale_world \<and> sockets w2 = sockets stale_world)"
proof -
  have a: "proxy_ws (proxies connected_world 0) = Some 0"
    by (simp add: example_defs)
  have b: "Proxy_connect_client 0 0 initial_world = (Inr (), connected_world)"
    by (simp add: Proxy_connect_client_def example_defs)
  have c: "map_of (manager_proxies stale_world) ''__default__'' = Some (None, [0], [1])"
    "proxy_ws (proxies stale_world (last [0])) \<noteq> None"
    "map_of (manager_proxies stale_world) ''Calc'' = Some (Some Calc, [2], [3])"
    "proxy_ws (proxies stale_world 2) \<noteq> None"
    by (simp_all add: example_defs)
  have d: "find (\<lambda>proxy. Some (proxy_id proxy) = Some ''2'') [2] = Some 2"
    by (simp add: proxy_id_def hex_small hex_char_def)
  note t = attach_twice_fails [where w = connected_world and self = 0 and s = 1
        and ?w1.0 = connected_world and ?s2.0 = 1 and c = None and pending = "[0]"
        and connected = "[1]" and e = example_env and app_id = None and name = "''Calc''"
        and i = "''2''"]
  note u = attach_twice_fails [where w = initial_world and self = 0 and s = 0
        and ?w1.0 = connected_world and ?s2.0 = 1 and c = None and pending = "[0]"
        and connected = "[1]" and e = example_env and app_id = None and name = "''Calc''"
        and i = "''2''"]
  note v = attach_twice_fails [where w = stale_world and self = 2 and s = 5
        and ?w1.0 = connected_world and ?s2.0 = 1 and c = None and pending = "[0]"
        and connected = "[1]" and e = example_env and app_id = None and name = "''Calc''"
        and i = "''2''"]
  note x = attach_twice_fails [where w = stale_world and self = 2 and s = 5
        and ?w1.0 = connected_world and ?s2.0 = 1 and c = "Some Calc" and pending = "[2]"
        and connected = "[3]" and e = example_env and app_id = None and name = "''Calc''"
        and i = "''2''"]
  have t1: "Proxy_connect_client 0 1 connected_world = (Inl AssertionError, connected_world)"
    using t a by blast
  have t3: "\<exists>w2. connect_client example_env 5 ''__default__'' None stale_world
                = (Inl AssertionError, w2)
         \<and> proxies w2 = proxies stale_world \<and> sockets w2 = sockets stale_world"
    using v c by blast
  have t4: "\<exists>w2. connect_client example_env 5 ''Calc'' (Some ''2'') stale_world
                = (Inl AssertionError, w2)
         \<and> proxies w2 = proxies stale_world \<and> sockets w2 = sockets stale_world"
    using x c d by blast
  show ?thesis
    using a b c d t1 t3 t4 u by blast
qed

text \<open>
  Claim C2, as stated: whenever a pending proxy exists for the default name,
  \<^verbatim>\<open>get_default_proxy\<close> returns the newest pending proxy, in preference to the
  connected ones. The code returns the last element of \<^verbatim>\<open>pending + connected\<close>:
  with the pending proxy 0 and the connected proxy 1 it returns the connected proxy 1.
\<close>

theorem get_default_proxy_pending_first_counterexample:
  "map_of (manager_proxies mixed_world) ''__default__'' = Some (None, [0], [1])
   \<and> status mixed_world 0 = PENDING
   \<and> status mixed_world 1 = CONNECTED
   \<and> get_default_proxy example_env mixed_world = (Inr 1, mixed_world)
   \<and> fst (get_default_proxy example_env mixed_world) \<noteq> Inr (last [0])"
  by (simp add: get_default_proxy_def status_def example_defs)

lemma init_server_frame:
  assumes "init_server e host port w = (r, w1)"
  shows "manager_proxies w1 = manager_proxies w \<and> sockets w1 = sockets w
    \<and> next_proxy w1 = next_proxy w \<and> proxies w1 = proxies w"
proof (cases "tornado_app w")
  case True
  then show ?thesis
    using assms by (simp add: init_server_def)
next
  case False
  show ?thesis
  proof (cases port)
    case None
    then show ?thesis
      using assms False
      by (cases "find (\<lambda>p. listen e p host) (map (\<lambda>i. port_hash (seed i)) [0..<100])")
        (auto simp: init_server_def Let_def)
  next
    case (Some p)
    then show ?thesis
      using assms False by (cases "listen e p host") (auto simp: init_server_def Let_def)
  qed
qed

lemma launch_runtime_frame:
  assumes "runtime \<noteq> ''<export>''" "launch_runtime e self runtime w = (r, w1)"
  shows "manager_proxies w1 = manager_proxies w \<and> sockets w1 = sockets w
    \<and> next_proxy w1 = next_proxy w
    \<and> proxy_ws (proxies w1 self) = proxy_ws (proxies w self)
    \<and> proxy_widget (proxies w1 self) = proxy_widget (proxies w self)
    \<and> pending_commands (proxies w1 self) = pending_commands (proxies w self)
    \<and> (runtime = ''notebook'' \<longrightarrow> r = Inr ())"
proof (cases "runtime = ''notebook'' \<or> runtime = []")
  case True
  then show ?thesis
    using assms by (auto simp: launch_runtime_def)
next
  case False
  obtain r0 w0 where i: "init_server e ''localhost'' None w = (r0, w0)"
    by (cases "init_server e ''localhost'' None w") auto
  note f = init_server_frame [OF i]
  show ?thesis
  proof (cases r0)
    case (Inl err)
    then have "w1 = w0"
      using assms False i by (simp add: launch_runtime_def)
    with f False show ?thesis
      by simp
  next
    case (Inr u)
    show ?thesis
    proof (cases "serving_at w0")
      case None
      then have "w1 = w0"
        using assms False i Inr by (simp add: launch_runtime_def)
      with f False show ?thesis
        by simp
    next
      case (Some hp)
      obtain host port where hp: "hp = (host, port)"
        by (cases hp) auto
      let ?name = "proxy_app_name (proxies w0 self)"
      let ?url = "''http://'' @ host @ '':'' @ str_int port @ ''/''
            @ (if ?name \<noteq> ''__default__'' then ?name @ ''-'' @ proxy_id self else ?name)
            @ ''/''"
      have "w1 = w0 \<or> (\<exists>h. w1 = update_proxy self (\<lambda>p. p\<lparr>proxy_runtime := Some h\<rparr>) w0)"
        using assms False i Inr Some hp
        by (cases "launch e ?url runtime") (auto simp: launch_runtime_def Let_def)
      with f False show ?thesis
        by (auto simp: update_proxy_def)
    qed
  qed
qed

lemma Proxy_init_frame:
  assumes "runtime \<noteq> Some ''<export>''" "Proxy_init e name runtime w = (r, w1)"
  shows "manager_proxies w1 = manager_proxies w \<and> sockets w1 = sockets w
    \<and> next_proxy w1 = Suc (next_proxy w)
    \<and> proxy_ws (proxies w1 (next_proxy w)) = None
    \<and> proxy_widget (proxies w1 (next_proxy w)) = None
    \<and> pending_commands (proxies w1 (next_proxy w)) = []
    \<and> (\<forall>p. r = Inr p \<longrightarrow> p = next_proxy w)
    \<and> (runtime = None \<or> runtime = Some [] \<or> runtime = Some ''notebook''
         \<longrightarrow> r = Inr (next_proxy w))"
proof (cases "runtime = None \<or> runtime = Some []")
  case True
  then show ?thesis
    using assms by (auto simp: Proxy_init_def Let_def)
next
  case False
  then obtain rt where rt: "runtime = Some rt" "rt \<noteq> []" "rt \<noteq> ''<export>''"
    using assms(1) by (cases runtime) auto
  let ?w = "w\<lparr>next_proxy := Suc (next_proxy w),
                 proxies := (proxies w)(next_proxy w :=
                   \<lparr>proxy_app_name = name, proxy_runtime = None, proxy_ws = None,
                    proxy_widget = None,
                    known_mirrored_classes = set (get_defined_mirrored_classes e),
                    pending_commands = []\<rparr>)\<rparr>"
  obtain r2 w2 where l: "launch_runtime e (next_proxy w) rt ?w = (r2, w2)"
    by (cases "launch_runtime e (next_proxy w) rt ?w") auto
  from launch_runtime_frame [OF rt(3) l] have f:
    "manager_proxies w2 = manager_proxies w" "sockets w2 = sockets w"
    "next_proxy w2 = Suc (next_proxy w)"
    "proxy_ws (proxies w2 (next_proxy w)) = None"
    "proxy_widget (proxies w2 (next_proxy w)) = None"
    "pending_commands (proxies w2 (next_proxy w)) = []"
    "rt = ''notebook'' \<longrightarrow> r2 = Inr ()"
    by simp_all
  have "w1 = w2 \<and> (case r2 of Inl err \<Rightarrow> r = Inl err | Inr u \<Rightarrow> r = Inr (next_proxy w))"
    using assms(2) rt l by (auto simp: Proxy_init_def Let_def split: sum.splits)
  with f rt show ?thesis
    by (auto split: sum.splits)
qed

lemma get_default_proxy_empty:
  assumes "map_of (manager_proxies w) ''__default__'' = Some (c, [], [])"
  shows "get_default_proxy e w =
    (case Proxy_init e ''__default__''
            (Some (if is_notebook w then ''notebook'' else ''browser'')) w of
       (Inl err, w1) \<Rightarrow> (Inl err, w1)
     | (Inr proxy, w1) \<Rightarrow>
         (Inr proxy, w1\<lparr>manager_proxies :=
            AList.update ''__default__'' (c, [proxy], []) (manager_proxies w1)\<rparr>))"
  using assms unfolding get_default_proxy_def Let_def
  by (simp split: prod.split sum.split)

lemma browser_not_export:
  "Some (if b then ''notebook'' else ''browser'') \<noteq> Some ''<export>''"
  by simp

text \<open>
  Claim C2, amended: \<^verbatim>\<open>get_default_proxy\<close> returns the last element of the
  pending list followed by the connected list, and changes nothing: the newest connected
  proxy when there is a connected one, the newest pending proxy when there are pending
  proxies only. When both lists are empty it constructs a proxy, for the runtime
  \<^verbatim>\<open>notebook\<close> or \<^verbatim>\<open>browser\<close>; if the construction returns (it always does in
  the notebook, where nothing is launched), the proxy is new, pending, without a widget,
  and the only element of the pending list; if launching the browser raises, the lists are
  as before.
\<close>

theorem get_default_proxy_last:
  assumes "map_of (manager_proxies w) ''__default__'' = Some (c, pending, connected)"
  shows "(pending @ connected \<noteq> [] \<longrightarrow>
            get_default_proxy e w = (Inr (last (pending @ connected)), w))
    \<and> (connected \<noteq> [] \<longrightarrow> get_default_proxy e w = (Inr (last connected), w))
    \<and> (pending \<noteq> [] \<and> connected = [] \<longrightarrow>
            get_default_proxy e w = (Inr (last pending), w))
    \<and> (pending = [] \<and> connected = [] \<longrightarrow>
         (\<exists>r w1. get_default_proxy e w = (r, w1)
            \<and> (is_notebook w \<longrightarrow> r = Inr (next_proxy w))
            \<and> (case r of
                  Inr proxy \<Rightarrow>
                    proxy = next_proxy w
                    \<and> status w1 proxy = PENDING
                    \<and> proxy_widget (proxies w1 proxy) = None
                    \<and> map_of (manager_proxies w1) ''__default__'' = Some (c, [proxy], [])
                | Inl err \<Rightarrow> manager_proxies w1 = manager_proxies w)))"
proof (intro conjI impI)
  assume "pending @ connected \<noteq> []"
  then show "get_default_proxy e w = (Inr (last (pending @ connected)), w)"
    using assms by (simp add: get_default_proxy_def)
next
  assume "connected \<noteq> []"
  then show "get_default_proxy e w = (Inr (last connected), w)"
    using assms by (simp add: get_default_proxy_def)
next
  assume "pending \<noteq> [] \<and> connected = []"
  then show "get_default_proxy e w = (Inr (last pending), w)"
    using assms by (simp add: get_default_proxy_def)
next
  assume empty: "pending = [] \<and> connected = []"
  define rt where "rt = Some (if is_notebook w then ''notebook'' else ''browser'')"
  obtain r0 w0 where i: "Proxy_init e ''__default__'' rt w = (r0, w0)"
    by (cases "Proxy_init e ''__default__'' rt w") auto
  have "rt \<noteq> Some ''<export>''"
    unfolding rt_def by (rule browser_not_export)
  from Proxy_init_frame [OF this i] have f:
    "manager_proxies w0 = manager_proxies w"
    "proxy_ws (proxies w0 (next_proxy w)) = None"
    "proxy_widget (proxies w0 (next_proxy w)) = None"
    "\<forall>p. r0 = Inr p \<longrightarrow> p = next_proxy w"
    "rt = Some ''notebook'' \<longrightarrow> r0 = Inr (next_proxy w)"
    by blast+
  have nb: "is_notebook w \<longrightarrow> r0 = Inr (next_proxy w)"
    using f(5) by (simp add: rt_def)
  have g: "get_default_proxy e w =
    (case (r0, w0) of
       (Inl err, w1) \<Rightarrow> (Inl err, w1)
     | (Inr proxy, w1) \<Rightarrow>
         (Inr proxy, w1\<lparr>manager_proxies :=
            AList.update ''__default__'' (c, [proxy], []) (manager_proxies w1)\<rparr>))"
    using get_default_proxy_empty [of w c e] assms empty i by (simp add: rt_def)
  show "\<exists>r w1. get_default_proxy e w = (r, w1)
            \<and> (is_notebook w \<longrightarrow> r = Inr (next_proxy w))
            \<and> (case r of
                  Inr proxy \<Rightarrow>
                    proxy = next_proxy w
                    \<and> status w1 proxy = PENDING
                    \<and> proxy_widget (proxies w1 proxy) = None
                    \<and> map_of (manager_proxies w1) ''__default__'' = Some (c, [proxy], [])
                | Inl err \<Rightarrow> manager_proxies w1 = manager_proxies w)"
  proof (cases r0)
    case (Inl err)
    with g have "get_default_proxy e w = (Inl err, w0)"
      by simp
    with Inl f(1) nb show ?thesis
      by simp
  next
    case (Inr p)
    then have p: "p = next_proxy w"
      using f(4) by simp
    let ?w1 = "w0\<lparr>manager_proxies :=
                      AList.update ''__default__'' (c, [p], []) (manager_proxies w0)\<rparr>"
    have "get_default_proxy e w = (Inr p, ?w1)"
      using g Inr by simp
    moreover have "status ?w1 p = PENDING" "proxy_widget (proxies ?w1 p) = None"
      "map_of (manager_proxies ?w1) ''__default__'' = Some (c, [p], [])"
      using p f(2,3) by (simp_all add: status_cases map_of_update_same)
    ultimately show ?thesis
      using p by simp
  qed
qed

theorem get_default_proxy_last_witness:
  "map_of (manager_proxies mixed_world) ''__default__'' = Some (None, [0], [1])
   \<and> [0] @ [1] \<noteq> ([] :: nat list)
   \<and> get_default_proxy example_env mixed_world = (Inr 1, mixed_world)
   \<and> map_of (manager_proxies pending_world) ''__default__'' = Some (None, [0], [])
   \<and> get_default_proxy example_env pending_world = (Inr 0, pending_world)
   \<and> map_of (manager_proxies (initial_world\<lparr>is_notebook := True\<rparr>)) ''__default__''
        = Some (None, [], [])
   \<and> is_notebook (initial_world\<lparr>is_notebook := True\<rparr>)
   \<and> (\<exists>w1. get_default_proxy example_env (initial_world\<lparr>is_notebook := True\<rparr>)
               = (Inr 0, w1)
          \<and> status w1 0 = PENDING \<and> proxy_widget (proxies w1 0) = None
          \<and> map_of (manager_proxies w1) ''__default__'' = Some (None, [0], []))"
proof -
  have m: "map_of (manager_proxies mixed_world) ''__default__'' = Some (None, [0], [1])"
    by (simp add: example_defs)
  have p: "map_of (manager_proxies pending_world) ''__default__'' = Some (None, [0], [])"
    by (simp add: pending_world_def example_defs)
  have n: "map_of (manager_proxies (initial_world\<lparr>is_notebook := True\<rparr>)) ''__default__''
        = Some (None, [], [])"
    "is_notebook (initial_world\<lparr>is_notebook := True\<rparr>)"
    "next_proxy (initial_world\<lparr>is_notebook := True\<rparr>) = 0"
    by (simp_all add: example_defs)
  have t1: "get_default_proxy example_env mixed_world = (Inr 1, mixed_world)"
    using get_default_proxy_last [OF m, of example_env] by simp
  have t2: "get_default_proxy example_env pending_world = (Inr 0, pending_world)"
    using get_default_proxy_last [OF p, of example_env] by simp
  have t3: "\<exists>w1. get_default_proxy example_env (initial_world\<lparr>is_notebook := True\<rparr>)
               = (Inr 0, w1)
          \<and> status w1 0 = PENDING \<and> proxy_widget (proxies w1 0) = None
          \<and> map_of (manager_proxies w1) ''__default__'' = Some (None, [0], [])"
    using get_default_proxy_last [OF n(1), of example_env] n(2,3) by auto
  show ?thesis
    using m p n t1 t2 t3 by simp
qed

text \<open>
  Claim C4, as stated: registering a class under a name that is present replaces the class
  and keeps the two lists, without an error, whether or not the class is the stored one.
  The lists are kept only under the guard \<^verbatim>\<open>cls is not self._proxies[name][0]\<close>:
  registering the stored class \<^verbatim>\<open>Calc\<close> again leaves the name with two empty lists;
  and the assertion rejects a class that is not a subclass of \<^verbatim>\<open>Widget\<close>.
\<close>

theorem register_app_class_same_class_counterexample:
  "issubclass Calc (Widget example_env)
   \<and> map_of (manager_proxies calc_world) (cls_name Calc) = Some (Some Calc, [2], [3])
   \<and> (\<exists>w1. register_app_class example_env Calc calc_world = (Inr (), w1)
         \<and> map_of (manager_proxies w1) (cls_name Calc) = Some (Some Calc, [], []))
   \<and> \<not> (\<exists>w1. register_app_class example_env Calc calc_world = (Inr (), w1)
         \<and> map_of (manager_proxies w1) (cls_name Calc) = Some (Some Calc, [2], [3]))
   \<and> cls_name Plain_Calc = cls_name Calc
   \<and> register_app_class example_env Plain_Calc calc_world = (Inl AssertionError, calc_world)"
  by (simp add: register_app_class_def issubclass_def mro_def example_env_def Calc_def
      Widget_cls_def Mirrored_cls_def object_cls_def Plain_Calc_def example_defs Let_def)

text \<open>
  Claim C4, amended: for a subclass of \<^verbatim>\<open>Widget\<close> whose name is present with
  another class (or with none), \<^verbatim>\<open>register_app_class\<close> returns without an error,
  the name then holds the new class with the pending and connected lists it had, and every
  other name, the order of the names, the proxies and the channels are unchanged.
\<close>

theorem register_app_class_replaces:
  assumes "issubclass c (Widget e)"
    and "map_of (manager_proxies w) (cls_name c) = Some (oldCls, pending, connected)"
    and "oldCls \<noteq> Some c"
  shows "\<exists>w1. register_app_class e c w = (Inr (), w1)
    \<and> map_of (manager_proxies w1) (cls_name c) = Some (Some c, pending, connected)
    \<and> (\<forall>name. name \<noteq> cls_name c \<longrightarrow>
          map_of (manager_proxies w1) name = map_of (manager_proxies w) name)
    \<and> map fst (manager_proxies w1) = map fst (manager_proxies w)
    \<and> proxies w1 = proxies w \<and> sockets w1 = sockets w"
proof -
  have "cls_name c \<in> fst ` set (manager_proxies w)"
    using assms(2) by (metis map_of_eq_None_iff option.distinct(1))
  then have "map fst (AList.update (cls_name c) (Some c, pending, connected) (manager_proxies w))
      = map fst (manager_proxies w)"
    by (simp add: update_keys)
  moreover have "oldCls \<noteq> Some c \<longleftrightarrow> Some c \<noteq> oldCls"
    by auto
  ultimately show ?thesis
    using assms by (simp add: register_app_class_def update_conv')
qed

theorem register_app_class_replaces_witness:
  "issubclass Calc (Widget example_env)
   \<and> map_of (manager_proxies calc_world) (cls_name Calc)
        = Some (Some Calc, [2], [3])
   \<and> Some Calc \<noteq> Some (Class 5 ''Calc'' (mro_tail Calc) [] [])
   \<and> cls_name (Class 5 ''Calc'' (mro_tail Calc) [] []) = cls_name Calc
   \<and> issubclass (Class 5 ''Calc'' (mro_tail Calc) [] []) (Widget example_env)
   \<and> (\<exists>w1. register_app_class example_env (Class 5 ''Calc'' (mro_tail Calc) [] []) calc_world
               = (Inr (), w1)
         \<and> map_of (manager_proxies w1) ''Calc''
             = Some (Some (Class 5 ''Calc'' (mro_tail Calc) [] []), [2], [3])
         \<and> map_of (manager_proxies w1) ''__default__'' = Some (None, [0], [1]))"
proof -
  let ?c = "Class 5 ''Calc'' (mro_tail Calc) [] []"
  have a: "issubclass ?c (Widget example_env)" "issubclass Calc (Widget example_env)"
    by (simp_all add: issubclass_def mro_def example_env_def Calc_def)
  have b: "map_of (manager_proxies calc_world) (cls_name ?c) = Some (Some Calc, [2], [3])"
    "map_of (manager_proxies calc_world) (cls_name Calc) = Some (Some Calc, [2], [3])"
    "map_of (manager_proxies calc_world) ''__default__'' = Some (None, [0], [1])"
    by (simp_all add: example_defs Calc_def)
  have c: "Some Calc \<noteq> Some ?c"
    by (simp add: Calc_def)
  from register_app_class_replaces [OF a(1) b(1) c] b(3)
  have "\<exists>w1. register_app_class example_env ?c calc_world = (Inr (), w1)
         \<and> map_of (manager_proxies w1) ''Calc'' = Some (Some ?c, [2], [3])
         \<and> map_of (manager_proxies w1) ''__default__'' = Some (None, [0], [1])"
    by auto
  moreover have "cls_name Calc = ''Calc''"
    by (simp add: Calc_def)
  ultimately show ?thesis
    using a b c by simp
qed

section \<open>Results on the registration of classes\<close>

lemma bases_first_append:
  "bases_first anc K (xs @ ys) \<longleftrightarrow> bases_first anc K xs \<and> bases_first anc (K \<union> set xs) ys"
  by (induction xs arbitrary: K) auto

lemma bases_first_cong:
  "(\<And>x. x \<in> set xs \<Longrightarrow> anc x = anc' x) \<Longrightarrow> bases_first anc K xs = bases_first anc' K xs"
  by (induction xs arbitrary: K) auto

lemma valid_descriptor_bases:
  assumes "valid_descriptor M c"
  shows "issubclass c M" "mirrored_bases M c = mirrored_ancestors M c"
    "\<And>d. d \<in> set (mirrored_bases M c) \<Longrightarrow> valid_descriptor M d"
  using assms
  by (cases c; auto simp: mirrored_bases_def mirrored_ancestors_def dest: set_takeWhileD)+

lemma registered_refl: "registered M self V w w []"
  by (simp add: registered_def)

lemma registered_trans:
  assumes "registered M self V w w1 xs" "registered M self V w1 w2 ys"
  shows "registered M self V w w2 (xs @ ys)"
  using assms unfolding registered_def
  by (auto simp: bases_first_append)

lemma send_command_outbox:
  assumes "status w self \<noteq> CLOSED"
  shows "\<exists>w1. send_command self command w = (Inr (), w1)
     \<and> outbox w1 self = outbox w self @ [command]
     \<and> status w1 self = status w self
     \<and> known_mirrored_classes (proxies w1 self) = known_mirrored_classes (proxies w self)"
proof (cases "status w self")
  case PENDING
  then have "proxy_ws (proxies w self) = None"
    by (simp add: status_cases)
  with PENDING show ?thesis
    by (simp add: send_command_pending outbox_def status_def update_proxy_def)
next
  case CONNECTED
  then obtain s where s: "proxy_ws (proxies w self) = Some s" "close_code (sockets w s) = None"
    by (auto simp: status_cases)
  then show ?thesis
    by (simp add: send_command_connected outbox_def status_def ws_command_def)
next
  case CLOSED
  with assms show ?thesis
    by simp
qed

lemma update_known_frame:
  "status (update_proxy self (\<lambda>p. p\<lparr>known_mirrored_classes := K p\<rparr>) w) q = status w q"
  "outbox (update_proxy self (\<lambda>p. p\<lparr>known_mirrored_classes := K p\<rparr>) w) q = outbox w q"
  "known_mirrored_classes
     (proxies (update_proxy self (\<lambda>p. p\<lparr>known_mirrored_classes := K p\<rparr>) w) self)
     = K (proxies w self)"
  by (simp_all add: status_def outbox_def update_proxy_def split: option.split)

lemma register_step:
  assumes "status w1 self \<noteq> CLOSED"
    and "c \<notin> known_mirrored_classes (proxies w1 self)"
    and "set (mirrored_bases M c) \<subseteq> known_mirrored_classes (proxies w1 self)"
    and "V c"
  shows "\<exists>w3.
    (case send_command self (''DEFINE-JS '' @ get_js c)
            (update_proxy self
               (\<lambda>p. p\<lparr>known_mirrored_classes := insert c (known_mirrored_classes p)\<rparr>) w1) of
       (Inl err, w3) \<Rightarrow> (Inl err, w3)
     | (Inr u, w3) \<Rightarrow>
         if strip (get_css c) \<noteq> [] then send_command self (''DEFINE-CSS '' @ get_css c) w3
         else (Inr (), w3)) = (Inr (), w3)
    \<and> registered M self V w1 w3 [c]"
proof -
  let ?w2 = "update_proxy self
               (\<lambda>p. p\<lparr>known_mirrored_classes := insert c (known_mirrored_classes p)\<rparr>) w1"
  have w2: "status ?w2 self = status w1 self" "outbox ?w2 self = outbox w1 self"
    "known_mirrored_classes (proxies ?w2 self)
       = insert c (known_mirrored_classes (proxies w1 self))"
    by (simp_all add: update_known_frame)
  then have "status ?w2 self \<noteq> CLOSED"
    using assms(1) by simp
  from send_command_outbox [OF this, of "''DEFINE-JS '' @ get_js c"] obtain w3 where w3:
    "send_command self (''DEFINE-JS '' @ get_js c) ?w2 = (Inr (), w3)"
    "outbox w3 self = outbox ?w2 self @ [''DEFINE-JS '' @ get_js c]"
    "status w3 self = status ?w2 self"
    "known_mirrored_classes (proxies w3 self) = known_mirrored_classes (proxies ?w2 self)"
    by blast
  show ?thesis
  proof (cases "strip (get_css c) \<noteq> []")
    case False
    then show ?thesis
      using w2 w3 assms by (simp add: registered_def define_commands_def)
  next
    case True
    have "status w3 self \<noteq> CLOSED"
      using w3 w2 assms(1) by simp
    from send_command_outbox [OF this, of "''DEFINE-CSS '' @ get_css c"] obtain w4 where
      "send_command self (''DEFINE-CSS '' @ get_css c) w3 = (Inr (), w4)"
      "outbox w4 self = outbox w3 self @ [''DEFINE-CSS '' @ get_css c]"
      "status w4 self = status w3 self"
      "known_mirrored_classes (proxies w4 self) = known_mirrored_classes (proxies w3 self)"
      by blast
    then show ?thesis
      using True w2 w3 assms by (simp add: registered_def define_commands_def)
  qed
qed

lemma size_in_list: "x \<in> set xs \<Longrightarrow> size x \<le> size_list size xs"
  by (induction xs) auto

lemma register_open:
  "status w self \<noteq> CLOSED \<Longrightarrow> issubclass c (Mirrored e) \<Longrightarrow>
   c \<notin> known_mirrored_classes (proxies w self) \<Longrightarrow> (v \<longrightarrow> valid_descriptor (Mirrored e) c) \<Longrightarrow>
     \<exists>w1 order. register_mirrored e self c w = (Inr (), w1)
       \<and> registered (Mirrored e) self (\<lambda>x. v \<longrightarrow> valid_descriptor (Mirrored e) x) w w1 order
       \<and> order \<noteq> [] \<and> last order = c
       \<and> (\<forall>x\<in>set order. size x \<le> size c)"
  "status w self \<noteq> CLOSED \<Longrightarrow>
   (\<forall>d\<in>set (takeWhile (\<lambda>d. issubclass d (Mirrored e)) cs).
       v \<longrightarrow> valid_descriptor (Mirrored e) d) \<Longrightarrow>
     \<exists>w1 order. register_bases e self cs w = (Inr (), w1)
       \<and> registered (Mirrored e) self (\<lambda>x. v \<longrightarrow> valid_descriptor (Mirrored e) x) w w1 order
       \<and> set (takeWhile (\<lambda>d. issubclass d (Mirrored e)) cs)
           \<subseteq> known_mirrored_classes (proxies w self) \<union> set order
       \<and> (\<forall>x\<in>set order. size x \<le> size_list size cs)"
proof (induction e self c w and e self cs w rule: register_mirrored_register_bases.induct)
  case (1 e self i n bases js css w)
  let ?c = "Class i n bases js css"
  let ?V = "\<lambda>x. v \<longrightarrow> valid_descriptor (Mirrored e) x"
  have vb: "\<forall>d\<in>set (takeWhile (\<lambda>d. issubclass d (Mirrored e)) bases). ?V d"
    using "1.prems"(4) by (auto dest: set_takeWhileD)
  from "1.IH" [OF _ "1.prems"(3) "1.prems"(1) vb] "1.prems"(2)
  obtain w1 order where b:
    "register_bases e self bases w = (Inr (), w1)"
    "registered (Mirrored e) self ?V w w1 order"
    "set (takeWhile (\<lambda>d. issubclass d (Mirrored e)) bases)
       \<subseteq> known_mirrored_classes (proxies w self) \<union> set order"
    "\<forall>x\<in>set order. size x \<le> size_list size bases"
    by auto
  have notin: "?c \<notin> set order"
    using b(4) by auto
  have k1: "known_mirrored_classes (proxies w1 self)
      = known_mirrored_classes (proxies w self) \<union> set order"
    "status w1 self = status w self"
    using b(2) by (simp_all add: registered_def)
  have s1: "status w1 self \<noteq> CLOSED" "?c \<notin> known_mirrored_classes (proxies w1 self)"
    "set (mirrored_bases (Mirrored e) ?c) \<subseteq> known_mirrored_classes (proxies w1 self)"
    using k1 "1.prems"(1,3) notin b(3) by (simp_all add: mirrored_bases_def)
  have vc: "?V ?c"
    using "1.prems"(4) by simp
  have "\<exists>w3.
    (case send_command self (''DEFINE-JS '' @ js)
            (update_proxy self
               (\<lambda>p. p\<lparr>known_mirrored_classes := insert ?c (known_mirrored_classes p)\<rparr>) w1) of
       (Inl err, w3) \<Rightarrow> (Inl err, w3)
     | (Inr u, w3) \<Rightarrow>
         if strip css \<noteq> [] then send_command self (''DEFINE-CSS '' @ css) w3
         else (Inr (), w3)) = (Inr (), w3)
    \<and> registered (Mirrored e) self ?V w1 w3 [?c]"
    using register_step [where V = ?V, OF s1 vc] unfolding cls.sel .
  then obtain w3 where w3:
    "(case send_command self (''DEFINE-JS '' @ js)
            (update_proxy self
               (\<lambda>p. p\<lparr>known_mirrored_classes := insert ?c (known_mirrored_classes p)\<rparr>) w1) of
       (Inl err, w3) \<Rightarrow> (Inl err, w3)
     | (Inr u, w3) \<Rightarrow>
         if strip css \<noteq> [] then send_command self (''DEFINE-CSS '' @ css) w3
         else (Inr (), w3)) = (Inr (), w3)"
    "registered (Mirrored e) self ?V w1 w3 [?c]"
    by blast
  have "register_mirrored e self ?c w = (Inr (), w3)"
    using "1.prems"(2,3) b(1) w3(1) by (simp add: Let_def)
  moreover have "registered (Mirrored e) self ?V w w3 (order @ [?c])"
    using b(2) w3(2) by (rule registered_trans)
  moreover have "\<forall>x\<in>set (order @ [?c]). size x \<le> size ?c"
    using b(4) by auto
  ultimately show ?case
    by (intro exI [of _ w3] exI [of _ "order @ [?c]"]) simp
next
  case (2 e self w)
  have "registered (Mirrored e) self (\<lambda>x. v \<longrightarrow> valid_descriptor (Mirrored e) x) w w []"
    by (rule registered_refl)
  then show ?case
    by (intro exI [of _ w] exI [of _ "[]"]) simp
next
  case (3 e self cls2 rest w)
  let ?V = "\<lambda>x. v \<longrightarrow> valid_descriptor (Mirrored e) x"
  show ?case
  proof (cases "issubclass cls2 (Mirrored e)")
    case False
    have "registered (Mirrored e) self ?V w w []"
      by (rule registered_refl)
    with False show ?thesis
      by (intro exI [of _ w] exI [of _ "[]"]) simp
  next
    case True
    then have vr: "?V cls2"
      "\<forall>d\<in>set (takeWhile (\<lambda>d. issubclass d (Mirrored e)) rest). ?V d"
      using "3.prems"(2) by simp_all
    show ?thesis
    proof (cases "cls2 \<in> known_mirrored_classes (proxies w self)")
      case known: True
      from "3.IH"(3) [OF _ _ "3.prems"(1) vr(2)] True known
      obtain w1 order where
        "register_bases e self rest w = (Inr (), w1)"
        "registered (Mirrored e) self ?V w w1 order"
        "set (takeWhile (\<lambda>d. issubclass d (Mirrored e)) rest)
           \<subseteq> known_mirrored_classes (proxies w self) \<union> set order"
        "\<forall>x\<in>set order. size x \<le> size_list size rest"
        by auto
      then show ?thesis
        using True known
        by (intro exI [of _ w1] exI [of _ order]) (auto simp: le_SucI)
    next
      case unknown: False
      from "3.IH"(1) [OF _ unknown "3.prems"(1) True unknown vr(1)] True
      obtain w1 o1 where a:
        "register_mirrored e self cls2 w = (Inr (), w1)"
        "registered (Mirrored e) self ?V w w1 o1"
        "o1 \<noteq> []" "last o1 = cls2"
        "\<forall>x\<in>set o1. size x \<le> size cls2"
        by auto
      have s1: "status w1 self \<noteq> CLOSED"
        using a(2) "3.prems"(1) by (simp add: registered_def)
      from "3.IH"(2) [OF _ unknown a(1) [symmetric] refl s1 vr(2)] True
      obtain w2 o2 where b:
        "register_bases e self rest w1 = (Inr (), w2)"
        "registered (Mirrored e) self ?V w1 w2 o2"
        "set (takeWhile (\<lambda>d. issubclass d (Mirrored e)) rest)
           \<subseteq> known_mirrored_classes (proxies w1 self) \<union> set o2"
        "\<forall>x\<in>set o2. size x \<le> size_list size rest"
        by auto
      have k1: "known_mirrored_classes (proxies w1 self)
          = known_mirrored_classes (proxies w self) \<union> set o1"
        using a(2) by (simp add: registered_def)
      have "cls2 \<in> set o1"
        using a(3,4) last_in_set by metis
      then have sub: "set (takeWhile (\<lambda>d. issubclass d (Mirrored e)) (cls2 # rest))
          \<subseteq> known_mirrored_classes (proxies w self) \<union> set (o1 @ o2)"
        using b(3) k1 True by auto
      have "register_bases e self (cls2 # rest) w = (Inr (), w2)"
        using True unknown a(1) b(1) by simp
      moreover have "registered (Mirrored e) self ?V w w2 (o1 @ o2)"
        using a(2) b(2) by (rule registered_trans)
      moreover have "\<forall>x\<in>set (o1 @ o2). size x \<le> size_list size (cls2 # rest)"
        using a(5) b(4) by auto
      ultimately show ?thesis
        using sub by (intro exI [of _ w2] exI [of _ "o1 @ o2"]) simp
    qed
  qed
qed

lemma register_closed:
  "status w self = CLOSED \<Longrightarrow> issubclass c (Mirrored e) \<Longrightarrow>
   c \<notin> known_mirrored_classes (proxies w self) \<Longrightarrow>
     \<exists>w1. register_mirrored e self c w
            = (Inl (RuntimeError ''Cannot send commands; app is closed''), w1)
       \<and> outbox w1 self = outbox w self \<and> status w1 self = CLOSED"
  "status w self = CLOSED \<Longrightarrow>
     \<exists>r w1. register_bases e self cs w = (r, w1)
       \<and> (r = Inr () \<or> r = Inl (RuntimeError ''Cannot send commands; app is closed''))
       \<and> outbox w1 self = outbox w self \<and> status w1 self = CLOSED"
proof (induction e self c w and e self cs w rule: register_mirrored_register_bases.induct)
  case (1 e self i n bases js css w)
  let ?c = "Class i n bases js css"
  let ?err = "Inl (RuntimeError ''Cannot send commands; app is closed'') :: error + unit"
  from "1.IH" [OF _ "1.prems"(3) "1.prems"(1)] "1.prems"(2)
  obtain r w1 where b:
    "register_bases e self bases w = (r, w1)" "r = Inr () \<or> r = ?err"
    "outbox w1 self = outbox w self" "status w1 self = CLOSED"
    by auto
  show ?case
  proof (cases "r = Inr ()")
    case False
    with b have "register_mirrored e self ?c w = (?err, w1)"
      using "1.prems"(2,3) by auto
    with b show ?thesis
      by simp
  next
    case True
    let ?w2 = "update_proxy self
       (\<lambda>p. p\<lparr>known_mirrored_classes := insert ?c (known_mirrored_classes p)\<rparr>) w1"
    have w2: "status ?w2 self = CLOSED" "outbox ?w2 self = outbox w1 self"
      using b(4) by (simp_all add: update_known_frame)
    have "send_command self (''DEFINE-JS '' @ js) ?w2 = (?err, ?w2)"
      using w2(1) by (rule send_command_closed)
    then have "register_mirrored e self ?c w = (?err, ?w2)"
      using "1.prems"(2,3) b(1) True by (simp add: Let_def)
    with w2 b show ?thesis
      by simp
  qed
next
  case (2 e self w)
  then show ?case
    by simp
next
  case (3 e self cls2 rest w)
  show ?case
  proof (cases "issubclass cls2 (Mirrored e)")
    case False
    with "3.prems" show ?thesis
      by simp
  next
    case True
    show ?thesis
    proof (cases "cls2 \<in> known_mirrored_classes (proxies w self)")
      case known: True
      from "3.IH"(3) [OF _ _ "3.prems"] True known show ?thesis
        by simp
    next
      case unknown: False
      from "3.IH"(1) [OF _ unknown "3.prems" True unknown] True
      obtain w1 where
        "register_mirrored e self cls2 w
           = (Inl (RuntimeError ''Cannot send commands; app is closed''), w1)"
        "outbox w1 self = outbox w self" "status w1 self = CLOSED"
        by auto
      then show ?thesis
        using True unknown by simp
    qed
  qed
qed

text \<open>
  Claim C7: for a class that the proxy does not know yet and whose base chain consists of
  \<^verbatim>\<open>Mirrored\<close> classes up to the root marker, the commands that
  \<^verbatim>\<open>register_mirrored\<close> emits are the \<^verbatim>\<open>DEFINE\<close> commands of a list of
  classes \<open>order\<close>, one class after the other. No class occurs twice in the list and
  none was known before, so no \<^verbatim>\<open>DEFINE\<close> is emitted twice; every
  \<^verbatim>\<open>Mirrored\<close> ancestor of a class of the list was known before or comes earlier in
  the list (least derived first). Unless the proxy is closed the call returns, the class
  itself is the last of the list, and each of its \<^verbatim>\<open>Mirrored\<close> ancestors was known
  or comes strictly before it. On a closed proxy the call raises the
  \<^verbatim>\<open>RuntimeError\<close> of \<^verbatim>\<open>_send_command\<close> and nothing is emitted.
\<close>

theorem register_mirrored_bases_first:
  assumes "valid_descriptor (Mirrored e) c"
    and "c \<notin> known_mirrored_classes (proxies w self)"
  shows "\<exists>r w1 order.
      register_mirrored e self c w = (r, w1)
    \<and> outbox w1 self = outbox w self @ concat (map define_commands order)
    \<and> distinct order
    \<and> set order \<inter> known_mirrored_classes (proxies w self) = {}
    \<and> bases_first (mirrored_ancestors (Mirrored e))
          (known_mirrored_classes (proxies w self)) order
    \<and> (if status w self = CLOSED
        then r = Inl (RuntimeError ''Cannot send commands; app is closed'') \<and> order = []
        else r = Inr () \<and> order \<noteq> [] \<and> last order = c
          \<and> set (mirrored_ancestors (Mirrored e) c)
              \<subseteq> known_mirrored_classes (proxies w self) \<union> set (butlast order)
          \<and> known_mirrored_classes (proxies w1 self)
              = known_mirrored_classes (proxies w self) \<union> set order)"
proof (cases "status w self = CLOSED")
  case True
  from register_closed(1) [OF True valid_descriptor_bases(1) [OF assms(1)] assms(2)]
  obtain w1 where
    "register_mirrored e self c w
       = (Inl (RuntimeError ''Cannot send commands; app is closed''), w1)"
    "outbox w1 self = outbox w self"
    by blast
  with True show ?thesis
    by (intro exI [of _ "Inl (RuntimeError ''Cannot send commands; app is closed'')"]
        exI [of _ w1] exI [of _ "[]"]) simp
next
  case False
  let ?M = "Mirrored e"
  let ?K = "known_mirrored_classes (proxies w self)"
  have "True \<longrightarrow> valid_descriptor ?M c"
    using assms(1) by simp
  from register_open(1) [OF False valid_descriptor_bases(1) [OF assms(1)] assms(2) this]
  obtain w1 order where r:
    "register_mirrored e self c w = (Inr (), w1)"
    "registered ?M self (\<lambda>x. True \<longrightarrow> valid_descriptor ?M x) w w1 order"
    "order \<noteq> []" "last order = c"
    by blast
  from r(2) have p:
    "outbox w1 self = outbox w self @ concat (map define_commands order)"
    "known_mirrored_classes (proxies w1 self) = ?K \<union> set order"
    "distinct order" "set order \<inter> ?K = {}"
    "bases_first (mirrored_bases ?M) ?K order"
    "\<forall>x\<in>set order. valid_descriptor ?M x"
    by (simp_all add: registered_def list_all_iff)
  have "bases_first (mirrored_bases ?M) ?K order = bases_first (mirrored_ancestors ?M) ?K order"
    using p(6) by (intro bases_first_cong valid_descriptor_bases(2)) simp
  with p(5) have bf: "bases_first (mirrored_ancestors ?M) ?K order"
    by simp
  have "order = butlast order @ [c]"
    using r(3,4) by (metis append_butlast_last_id)
  then have "bases_first (mirrored_ancestors ?M) ?K (butlast order @ [c])"
    using bf by simp
  then have anc: "set (mirrored_ancestors ?M c) \<subseteq> ?K \<union> set (butlast order)"
    by (simp add: bases_first_append)
  show ?thesis
    using False r(1,3,4) p(1-4) bf anc
    by (intro exI [of _ "Inr ()"] exI [of _ w1] exI [of _ order]) simp
qed



lemmas class_defs =
  Calc_def Widget_cls_def Mirrored_cls_def object_cls_def example_env_def
  issubclass_def mro_def

lemma example_valid: "valid_descriptor (Mirrored example_env) Calc"
  by (simp add: class_defs)

lemma example_run:
  "\<exists>w1. register_mirrored example_env 0 Calc initial_world = (Inr (), w1)
     \<and> outbox w1 0 =
        [''DEFINE-JS flexx.classes.Widget = {};'', ''DEFINE-CSS .w {}'',
         ''DEFINE-JS flexx.classes.Calc = {};'']"
  by (simp add: class_defs example_defs send_command_def status_def outbox_def Let_def
      strip_def isspace_def)

theorem register_mirrored_bases_first_witness:
  "valid_descriptor (Mirrored example_env) Calc
   \<and> Calc \<notin> known_mirrored_classes (proxies initial_world 0)
   \<and> status initial_world 0 \<noteq> CLOSED
   \<and> (\<exists>w1 order.
        register_mirrored example_env 0 Calc initial_world = (Inr (), w1)
      \<and> outbox w1 0 = outbox initial_world 0 @ concat (map define_commands order)
      \<and> distinct order \<and> order \<noteq> [] \<and> last order = Calc
      \<and> bases_first (mirrored_ancestors (Mirrored example_env)) {Mirrored_cls} order
      \<and> set (mirrored_ancestors (Mirrored example_env) Calc)
          \<subseteq> {Mirrored_cls} \<union> set (butlast order)
      \<and> outbox w1 0 =
        [''DEFINE-JS flexx.classes.Widget = {};'', ''DEFINE-CSS .w {}'',
         ''DEFINE-JS flexx.classes.Calc = {};''])"
proof -
  have k: "known_mirrored_classes (proxies initial_world 0) = {Mirrored_cls}"
    by (simp add: example_defs example_env_def)
  have n: "Calc \<notin> known_mirrored_classes (proxies initial_world 0)"
    by (simp add: k Calc_def Mirrored_cls_def)
  have s: "status initial_world 0 \<noteq> CLOSED"
    by (simp add: example_status)
  from register_mirrored_bases_first [OF example_valid n] s k
  obtain w1 order where r:
    "register_mirrored example_env 0 Calc initial_world = (Inr (), w1)"
    "outbox w1 0 = outbox initial_world 0 @ concat (map define_commands order)"
    "distinct order" "order \<noteq> []" "last order = Calc"
    "bases_first (mirrored_ancestors (Mirrored example_env)) {Mirrored_cls} order"
    "set (mirrored_ancestors (Mirrored example_env) Calc)
       \<subseteq> {Mirrored_cls} \<union> set (butlast order)"
    by auto
  from example_run r(1) have
    "outbox w1 0 =
        [''DEFINE-JS flexx.classes.Widget = {};'', ''DEFINE-CSS .w {}'',
         ''DEFINE-JS flexx.classes.Calc = {};'']"
    by auto
  with r example_valid n s show ?thesis
    by blast
qed



section \<open>Results on the port derivation\<close>

lemma port_hash_ords_range: "49152 \<le> port_hash_ords name \<and> port_hash_ords name \<le> 65535"
proof -
  have m: "0 \<le> v mod 16384 \<and> v mod 16384 < 16384" for v :: int
    by simp
  have p: "(2::int) ^ 14 = 16384"
    by simp
  show ?thesis
    unfolding port_hash_ords_def Let_def p
    using m [of "foldl port_hash_step 0 name +
        (drop_bit 3 (foldl port_hash_step 0 name) + int (length name) * fac)"]
    by linarith
qed

lemma seed_ports_range: "list_all (\<lambda>p. 49152 \<le> p \<and> p < 65535) seed_ports"
  by code_simp

text \<open>
  Claim C5, as stated: every string is mapped to a port \<open>p\<close> with
  \<open>49152 \<le> p < 65535\<close>. The code returns \<^verbatim>\<open>49152 + (val % 2**14)\<close>, and the
  remainder reaches \<open>2**14 - 1\<close>: the string \<^verbatim>\<open>01tN\<close> is mapped to 65535 itself, so
  the upper bound of the claim is off by one.
\<close>

theorem port_hash_half_open_counterexample:
  "\<not> (49152 \<le> port_hash ''01tN'' \<and> port_hash ''01tN'' < 65535)"
proof -
  have "port_hash ''01tN'' = 65535"
    by code_simp
  then show ?thesis
    by simp
qed

text \<open>
  Claim C5, amended: for every string (every sequence of code points) the port lies in
  the closed range \<open>49152 \<le> p \<le> 65535\<close>, as the docstring of \<^verbatim>\<open>port_hash\<close>
  says; each of the hundred seeds \<^verbatim>\<open>flexx+0\<close> to \<^verbatim>\<open>flexx+99\<close> is mapped below 65535.
  The port is a function of the string alone (the model reads and writes no state), so
  the same string gives the same port at every call.
\<close>

theorem port_hash_range:
  "49152 \<le> port_hash_ords ords \<and> port_hash_ords ords \<le> 65535
   \<and> 49152 \<le> port_hash name \<and> port_hash name \<le> 65535
   \<and> list_all (\<lambda>p. 49152 \<le> p \<and> p < 65535) seed_ports"
  using port_hash_ords_range [of ords] port_hash_ords_range [of "map of_char name"]
    seed_ports_range
  by (simp add: port_hash_def)

end
